theory Spec2Isabelle
  imports Complex_Main "HOL-Library.Sublist"
begin

section \<open>Python values and the operations the adapters apply to them\<close>

text \<open>
  The adapters in \<^verbatim>\<open>backend/qianwen.py\<close> and \<^verbatim>\<open>backend/openai_client.py\<close> work on
  decoded JSON, that is on Python values built from \<^verbatim>\<open>None\<close>, booleans, numbers, strings,
  lists and dictionaries.  A Python \<^verbatim>\<open>str\<close> is modelled as a \<^typ>\<open>string\<close>; its characters
  are Isabelle's 8-bit characters, read as the code points U+0000 to U+00FF.  A
  dictionary is an association list read with \<^const>\<open>map_of\<close>.  Floats are carried around
  and tested for zero, never computed with.
\<close>

datatype json =
    JNull
  | JBool bool
  | JInt int
  | JFloat real
  | JStr string
  | JArr "json list"
  | JObj "(string \<times> json) list"

text \<open>The exceptions a step of the adapters can raise on a decoded value.\<close>

datatype pyerror = AttributeError | TypeError | KeyError | IndexError | ValidationError

text \<open>Python's truth value of an object (\<^verbatim>\<open>if x:\<close>).\<close>

fun truthy :: "json \<Rightarrow> bool" where
  "truthy JNull = False"
| "truthy (JBool b) = b"
| "truthy (JInt i) = (i \<noteq> 0)"
| "truthy (JFloat r) = (r \<noteq> 0)"
| "truthy (JStr s) = (s \<noteq> [])"
| "truthy (JArr xs) = (xs \<noteq> [])"
| "truthy (JObj kvs) = (kvs \<noteq> [])"

text \<open>
  \<^verbatim>\<open>k in v\<close> for a string \<^verbatim>\<open>k\<close>: key membership in a dictionary, element membership
  in a list, the substring test on a string, and \<^verbatim>\<open>TypeError\<close> on everything else.
\<close>

fun py_in :: "string \<Rightarrow> json \<Rightarrow> pyerror + bool" where
  "py_in k (JObj kvs) = Inr (map_of kvs k \<noteq> None)"
| "py_in k (JArr xs) = Inr (JStr k \<in> set xs)"
| "py_in k (JStr s) = Inr (sublist k s)"
| "py_in k JNull = Inl TypeError"
| "py_in k (JBool b) = Inl TypeError"
| "py_in k (JInt i) = Inl TypeError"
| "py_in k (JFloat r) = Inl TypeError"

text \<open>\<^verbatim>\<open>v.get(k, d)\<close>: only a dictionary has the method.\<close>

fun py_get :: "json \<Rightarrow> string \<Rightarrow> json \<Rightarrow> pyerror + json" where
  "py_get (JObj kvs) k d = Inr (case map_of kvs k of Some x \<Rightarrow> x | None \<Rightarrow> d)"
| "py_get JNull k d = Inl AttributeError"
| "py_get (JBool b) k d = Inl AttributeError"
| "py_get (JInt i) k d = Inl AttributeError"
| "py_get (JFloat r) k d = Inl AttributeError"
| "py_get (JStr s) k d = Inl AttributeError"
| "py_get (JArr xs) k d = Inl AttributeError"

text \<open>\<^verbatim>\<open>v[k]\<close> for a string key \<^verbatim>\<open>k\<close>.\<close>

fun py_item :: "json \<Rightarrow> string \<Rightarrow> pyerror + json" where
  "py_item (JObj kvs) k = (case map_of kvs k of Some x \<Rightarrow> Inr x | None \<Rightarrow> Inl KeyError)"
| "py_item JNull k = Inl TypeError"
| "py_item (JBool b) k = Inl TypeError"
| "py_item (JInt i) k = Inl TypeError"
| "py_item (JFloat r) k = Inl TypeError"
| "py_item (JStr s) k = Inl TypeError"
| "py_item (JArr xs) k = Inl TypeError"

text \<open>
  \<^verbatim>\<open>v[0]\<close>.  The keys of a decoded dictionary are strings, so the integer key is
  never found in one.
\<close>

fun py_first :: "json \<Rightarrow> pyerror + json" where
  "py_first (JArr []) = Inl IndexError"
| "py_first (JArr (x # xs)) = Inr x"
| "py_first (JStr []) = Inl IndexError"
| "py_first (JStr (c # cs)) = Inr (JStr [c])"
| "py_first (JObj kvs) = Inl KeyError"
| "py_first JNull = Inl TypeError"
| "py_first (JBool b) = Inl TypeError"
| "py_first (JInt i) = Inl TypeError"
| "py_first (JFloat r) = Inl TypeError"

text \<open>Sequencing of steps that may raise: the first exception ends the sequence.\<close>

definition andthen :: "'e + 'a \<Rightarrow> ('a \<Rightarrow> 'e + 'b) \<Rightarrow> 'e + 'b" where
  "andthen r f = (case r of Inl e \<Rightarrow> Inl e | Inr x \<Rightarrow> f x)"

subsection \<open>Text helpers\<close>

text \<open>
  \<^verbatim>\<open>str.lower()\<close>.  Only the ASCII letters are mapped.  No character outside ASCII
  is lowered by Python to a letter of a key of the finish reason table, the only place
  where the adapters lower a text, so the lookup there is the same.
\<close>

definition lower_chr :: "char \<Rightarrow> char" where
  "lower_chr c =
     (case map_of (zip ''ABCDEFGHIJKLMNOPQRSTUVWXYZ'' ''abcdefghijklmnopqrstuvwxyz'') c of
        Some d \<Rightarrow> d
      | None \<Rightarrow> c)"

definition lower :: "string \<Rightarrow> string" where
  "lower s = map lower_chr s"

section \<open>The finish reason mapper\<close>

text \<open>The members of \<^verbatim>\<open>types.FinishReason\<close> that the adapters produce.\<close>

datatype FinishReason = STOP | MAX_TOKENS | SAFETY

text \<open>The dictionary \<^verbatim>\<open>mapping\<close>, the same in both adapters.\<close>

definition mapping :: "(string \<times> FinishReason) list" where
  "mapping =
     [(''stop'', STOP),
      (''length'', MAX_TOKENS),
      (''content_filter'', SAFETY),
      (''function_call'', STOP),
      (''tool_calls'', STOP)]"

text \<open>
  \<^verbatim>\<open>QwenLlm._map_finish_reason\<close> (qianwen.py, lines 503 to 516).  The streaming
  processors call it with whatever the decoded unit holds as its finish reason, so the
  argument is a Python value: a falsy one gives \<^verbatim>\<open>None\<close>, a string is lowered and looked
  up with \<^verbatim>\<open>STOP\<close> as the default, and any other truthy value has no \<^verbatim>\<open>lower\<close>.
\<close>

fun qwen_map_finish_reason :: "json \<Rightarrow> pyerror + FinishReason option" where
  "qwen_map_finish_reason (JStr s) =
     (if s = [] then Inr None
      else Inr (Some (case map_of mapping (lower s) of Some r \<Rightarrow> r | None \<Rightarrow> STOP)))"
| "qwen_map_finish_reason v =
     (if \<not> truthy v then Inr None else Inl AttributeError)"

text \<open>
  \<^verbatim>\<open>OpenAILlm._map_finish_reason\<close> (openai_client.py, lines 237 to 250).  Its argument
  is the \<^verbatim>\<open>finish_reason\<close> attribute of a typed choice of the client library, an
  optional string.
\<close>

definition openai_map_finish_reason :: "string option \<Rightarrow> FinishReason option" where
  "openai_map_finish_reason r =
     (case r of
        None \<Rightarrow> None
      | Some s \<Rightarrow>
          if s = [] then None
          else Some (case map_of mapping (lower s) of Some x \<Rightarrow> x | None \<Rightarrow> STOP))"

section \<open>The text sanitizer\<close>

text \<open>
  \<^verbatim>\<open>str.isspace()\<close> on one character, which is also what \<^verbatim>\<open>\s\<close> matches in a
  pattern over \<^verbatim>\<open>str\<close>: the whitespace code points below U+0100.
\<close>

definition isspace :: "char \<Rightarrow> bool" where
  "isspace c =
     (c \<in> set [CHR 0x09, CHR 0x0A, CHR 0x0B, CHR 0x0C, CHR 0x0D, CHR 0x1C, CHR 0x1D,
                CHR 0x1E, CHR 0x1F, CHR 0x20, CHR 0x85, CHR 0xA0])"

text \<open>\<^verbatim>\<open>str.strip()\<close>.\<close>

definition strip :: "string \<Rightarrow> string" where
  "strip s = rev (dropWhile isspace (rev (dropWhile isspace s)))"

text \<open>\<^verbatim>\<open>text.split('\n')\<close>: always at least one piece.\<close>

fun split_nl :: "string \<Rightarrow> string list" where
  "split_nl [] = [[]]"
| "split_nl (c # cs) =
     (if c = CHR 0x0A then [] # split_nl cs
      else (case split_nl cs of
              [] \<Rightarrow> [[c]]
            | l # ls \<Rightarrow> (c # l) # ls))"

text \<open>\<^verbatim>\<open>'\n'.join(lines)\<close>.\<close>

fun join_nl :: "string list \<Rightarrow> string" where
  "join_nl [] = []"
| "join_nl [l] = l"
| "join_nl (l # m # ls) = l @ CHR 0x0A # join_nl (m # ls)"

text \<open>
  \<^verbatim>\<open>code_block_start.match(line)\<close> for the pattern \<^verbatim>\<open>^\s*```(?:json)?\s*$\<close>.  The
  leading \<^verbatim>\<open>\s*\<close> takes all the whitespace there is, since a backquote is none; after
  the three backquotes either the rest is whitespace, or it is \<^verbatim>\<open>json\<close> followed by
  whitespace only.  A line holds no newline, so \<^verbatim>\<open>$\<close> is the end of the line.
\<close>

definition code_block_start :: "string \<Rightarrow> bool" where
  "code_block_start line =
     (let r = dropWhile isspace line in
      take 3 r = ''```'' \<and>
      (list_all isspace (drop 3 r) \<or>
       (take 4 (drop 3 r) = ''json'' \<and> list_all isspace (drop 7 r))))"

text \<open>\<^verbatim>\<open>code_block_end.match(line)\<close> for the pattern \<^verbatim>\<open>^\s*```\s*$\<close>.\<close>

definition code_block_end :: "string \<Rightarrow> bool" where
  "code_block_end line =
     (let r = dropWhile isspace line in
      take 3 r = ''```'' \<and> list_all isspace (drop 3 r))"

text \<open>
  The loop over the lines (qianwen.py, lines 202 to 216), with \<^verbatim>\<open>in_code_block\<close> as its
  state: the four branches in the order of the source.
\<close>

fun clean_lines :: "bool \<Rightarrow> string list \<Rightarrow> string list" where
  "clean_lines in_code_block [] = []"
| "clean_lines in_code_block (line # lines) =
     (if code_block_start line then clean_lines True lines
      else if in_code_block \<and> code_block_end line then clean_lines False lines
      else if \<not> in_code_block then line # clean_lines in_code_block lines
      else line # clean_lines in_code_block lines)"

text \<open>The text before the first occurrence of three backquotes, if there is one.\<close>

fun before_fence :: "string \<Rightarrow> string option" where
  "before_fence [] = None"
| "before_fence (c # cs) =
     (if take 3 (c # cs) = ''```'' then Some []
      else map_option ((#) c) (before_fence cs))"

text \<open>
  The first element of \<^verbatim>\<open>re.findall(r'```(?:json)?\s*([\s\S]*?)```', text, re.IGNORECASE)\<close>:
  the group of the leftmost match.  A match starts at three backquotes; \<^verbatim>\<open>(?:json)?\<close>
  and \<^verbatim>\<open>\s*\<close> are greedy and the group is lazy, so the first attempt at a start takes
  \<^verbatim>\<open>json\<close> in any letter case if it is there, then all the whitespace, and the group
  ends before the next three backquotes.  When that attempt fails no three backquotes
  follow, and the attempts that give back whitespace or \<^verbatim>\<open>json\<close> fail as well, since
  none of the characters given back is a backquote; the search goes on one character
  further.
\<close>

fun first_fenced :: "string \<Rightarrow> string option" where
  "first_fenced [] = None"
| "first_fenced (c # cs) =
     (if take 3 (c # cs) = ''```'' then
        (let r = drop 3 (c # cs);
             r1 = (if lower (take 4 r) = ''json'' then drop 4 r else r)
         in case before_fence (dropWhile isspace r1) of
              Some g \<Rightarrow> Some g
            | None \<Rightarrow> first_fenced cs)
      else first_fenced cs)"

text \<open>\<^verbatim>\<open>QwenLlm._clean_markdown_json\<close> (qianwen.py, lines 187 to 230), on a \<^verbatim>\<open>str\<close>.\<close>

definition clean_markdown_json :: "string \<Rightarrow> string" where
  "clean_markdown_json text0 =
     (if text0 = [] then []
      else
        let text1 = strip text0;
            lines = split_nl text1;
            cleaned_lines = clean_lines False lines;
            result = join_nl cleaned_lines
        in if strip result = [] then
             (case first_fenced text1 of
                Some m \<Rightarrow> strip m
              | None \<Rightarrow> strip result)
           else strip result)"

section \<open>Responses\<close>

text \<open>
  \<^verbatim>\<open>LlmResponse\<close> with the three fields the adapters set, \<^verbatim>\<open>types.Content\<close> with its
  parts and role, \<^verbatim>\<open>types.Part\<close> with its text.  The usage counts are carried as the
  decoded values they are read from.
\<close>

datatype part = Part "string option"

datatype content = Content "part list" string

datatype usage = UsageMetadata json json

record llm_response =
  content :: "content option"
  finish_reason :: "FinishReason option"
  usage_metadata :: "usage option"

text \<open>
  The response both streaming processors build for an incremental text:
  \<^verbatim>\<open>LlmResponse(content=types.Content(parts=[types.Part(text=t)], role="assistant"), finish_reason=None)\<close>.
\<close>

definition text_response :: "string \<Rightarrow> llm_response" where
  "text_response t =
     \<lparr>content = Some (Content [Part (Some t)] ''assistant''),
      finish_reason = None, usage_metadata = None\<rparr>"

text \<open>\<^verbatim>\<open>LlmResponse(content=None, finish_reason=r, usage_metadata=u)\<close>.\<close>

definition final_response :: "FinishReason option \<Rightarrow> usage option \<Rightarrow> llm_response" where
  "final_response r u = \<lparr>content = None, finish_reason = r, usage_metadata = u\<rparr>"

text \<open>
  The text a consumer of the stream assembles (openai_test.py, lines 37 to 43):
  \<^verbatim>\<open>full_response += response.content.parts[0].text\<close> for every response that has
  content and parts.  The streaming paths always give the part a text.
\<close>

definition response_chunk :: "llm_response \<Rightarrow> string" where
  "response_chunk r =
     (case content r of
        Some (Content (Part (Some t) # ps) role) \<Rightarrow> t
      | _ \<Rightarrow> [])"

definition full_response :: "llm_response list \<Rightarrow> string" where
  "full_response responses = concat (map response_chunk responses)"

section \<open>The response unifier of the Qwen adapter\<close>

text \<open>
  The two branches over a choice (qianwen.py, lines 326 to 331 and 423 to 428): the
  current text and the finish reason of the first choice.
\<close>

definition choice_text_reason :: "json \<Rightarrow> pyerror + (json \<times> json)" where
  "choice_text_reason choice =
     andthen (py_in ''message'' choice) (\<lambda>has_message.
       if has_message then
         andthen (py_item choice ''message'') (\<lambda>message.
         andthen (py_get message ''content'' (JStr [])) (\<lambda>current_text.
         andthen (py_get choice ''finish_reason'' JNull) (\<lambda>finish_reason_str.
           Inr (current_text, finish_reason_str))))
       else
         andthen (py_in ''delta'' choice) (\<lambda>has_delta.
           if has_delta then
             andthen (py_item choice ''delta'') (\<lambda>delta.
             andthen (py_get delta ''content'' (JStr [])) (\<lambda>current_text.
             andthen (py_get choice ''finish_reason'' JNull) (\<lambda>finish_reason_str.
               Inr (current_text, finish_reason_str))))
           else Inr (JStr [], JNull)))"

text \<open>
  The extraction of the current text and the finish reason from a decoded unit, written
  twice in the source with the same text (qianwen.py, lines 314 to 331 and 412 to 428).
\<close>

definition text_and_reason :: "json \<Rightarrow> pyerror + (json \<times> json)" where
  "text_and_reason data =
     andthen (py_in ''output'' data) (\<lambda>has_output.
       if has_output then
         andthen (py_get data ''output'' (JObj [])) (\<lambda>output.
         andthen (py_get output ''text'' (JStr [])) (\<lambda>current_text.
         andthen (py_get output ''finish_reason'' JNull) (\<lambda>finish_reason_str.
           Inr (current_text, finish_reason_str))))
       else
         andthen (py_in ''choices'' data) (\<lambda>has_choices.
           if has_choices then
             andthen (py_get data ''choices'' (JArr [])) (\<lambda>choices.
               if truthy choices then andthen (py_first choices) choice_text_reason
               else Inr (JStr [], JNull))
           else Inr (JStr [], JNull)))"

text \<open>
  The computation of the incremental text (qianwen.py, lines 338 to 340 and 431 to 433):
  \<^verbatim>\<open>if current_text and current_text.startswith(accumulated_text)\<close>.  The result is the
  incremental text when the branch is taken, and the accumulated text afterwards.  The
  \<^verbatim>\<open>if\<close> has no \<^verbatim>\<open>else\<close>.  A truthy value that is no string has no \<^verbatim>\<open>startswith\<close>.
\<close>

definition incremental :: "string \<Rightarrow> json \<Rightarrow> pyerror + (string option \<times> string)" where
  "incremental accumulated_text current_text =
     (if truthy current_text then
        (case current_text of
           JStr s \<Rightarrow>
             if prefix accumulated_text s
             then Inr (Some (drop (length accumulated_text) s), s)
             else Inr (None, accumulated_text)
         | _ \<Rightarrow> Inl AttributeError)
      else Inr (None, accumulated_text))"

text \<open>
  One decoded unit in \<^verbatim>\<open>_process_sse_stream\<close> (qianwen.py, lines 411 to 453): the
  responses it yields, the accumulated text afterwards, and the exception that ends the
  generator if one is raised.  What was yielded before the exception has been delivered.
\<close>

definition sse_unit :: "string \<Rightarrow> json \<Rightarrow> llm_response list \<times> string \<times> pyerror option" where
  "sse_unit accumulated_text data =
     (case text_and_reason data of
        Inl e \<Rightarrow> ([], accumulated_text, Some e)
      | Inr (current_text, finish_reason_str) \<Rightarrow>
          (case incremental accumulated_text current_text of
             Inl e \<Rightarrow> ([], accumulated_text, Some e)
           | Inr (incremental_text, accumulated_text') \<Rightarrow>
               (let yielded =
                      (case incremental_text of
                         None \<Rightarrow> []
                       | Some t \<Rightarrow> if t \<noteq> [] then [text_response t] else [])
                in if truthy finish_reason_str then
                     (case qwen_map_finish_reason finish_reason_str of
                        Inl e \<Rightarrow> (yielded, accumulated_text', Some e)
                      | Inr r \<Rightarrow> (yielded @ [final_response r None], accumulated_text', None))
                   else (yielded, accumulated_text', None))))"

text \<open>
  The usage of a unit in \<^verbatim>\<open>_process_json_stream\<close> (qianwen.py, lines 334 to 335):
  \<^verbatim>\<open>data["usage"]\<close> when \<^verbatim>\<open>"usage" in data\<close>, else \<^verbatim>\<open>None\<close>.
\<close>

definition usage_of :: "json \<Rightarrow> pyerror + json" where
  "usage_of data =
     andthen (py_in ''usage'' data) (\<lambda>has_usage.
       if has_usage then py_item data ''usage'' else Inr JNull)"

text \<open>The usage metadata of the final response (qianwen.py, lines 360 to 365).\<close>

definition usage_metadata_of :: "json \<Rightarrow> pyerror + usage option" where
  "usage_metadata_of usage_data =
     (if truthy usage_data then
        andthen (py_get usage_data ''input_tokens'' (JInt 0)) (\<lambda>input_tokens.
        andthen (py_get usage_data ''total_tokens'' (JInt 0)) (\<lambda>total_tokens.
          Inr (Some (UsageMetadata input_tokens total_tokens))))
      else Inr None)"

text \<open>
  One decoded unit in \<^verbatim>\<open>_process_json_stream\<close> (qianwen.py, lines 313 to 372).  The
  incremental text goes through \<^verbatim>\<open>_clean_markdown_json\<close> before it is yielded.
\<close>

definition json_unit :: "string \<Rightarrow> json \<Rightarrow> llm_response list \<times> string \<times> pyerror option" where
  "json_unit accumulated_text data =
     (case text_and_reason data of
        Inl e \<Rightarrow> ([], accumulated_text, Some e)
      | Inr (current_text, finish_reason_str) \<Rightarrow>
          (case usage_of data of
             Inl e \<Rightarrow> ([], accumulated_text, Some e)
           | Inr usage_data \<Rightarrow>
               (case incremental accumulated_text current_text of
                  Inl e \<Rightarrow> ([], accumulated_text, Some e)
                | Inr (incremental_text, accumulated_text') \<Rightarrow>
                    (let yielded =
                           (case incremental_text of
                              None \<Rightarrow> []
                            | Some t \<Rightarrow>
                                if t \<noteq> [] then [text_response (clean_markdown_json t)] else [])
                     in if truthy finish_reason_str then
                          (case qwen_map_finish_reason finish_reason_str of
                             Inl e \<Rightarrow> (yielded, accumulated_text', Some e)
                           | Inr r \<Rightarrow>
                               (case usage_metadata_of usage_data of
                                  Inl e \<Rightarrow> (yielded, accumulated_text', Some e)
                                | Inr u \<Rightarrow>
                                    (yielded @ [final_response r u], accumulated_text', None)))
                        else (yielded, accumulated_text', None)))))"

section \<open>The chunk reassembler of the Qwen adapter\<close>

text \<open>
  Two things of the streaming processors are not code of this repository and are
  parameters of the model: \<^verbatim>\<open>json.loads\<close>, as a function \<open>loads\<close> that gives \<^const>\<open>None\<close>
  where the library raises \<^verbatim>\<open>JSONDecodeError\<close>, and \<^verbatim>\<open>chunk.decode('utf-8', errors='ignore')\<close>,
  as a function \<open>decode\<close> from the bytes of a chunk to a text.
\<close>

text \<open>\<^verbatim>\<open>s.find(c)\<close> and \<^verbatim>\<open>s.rfind(c)\<close> for one character: an index, or \<open>-1\<close>.\<close>

definition find_chr :: "char \<Rightarrow> string \<Rightarrow> int" where
  "find_chr c s =
     (if c \<in> set s then int (length (takeWhile (\<lambda>x. x \<noteq> c) s)) else - 1)"

definition rfind_chr :: "char \<Rightarrow> string \<Rightarrow> int" where
  "rfind_chr c s =
     (if c \<in> set s
      then int (length s) - 1 - int (length (takeWhile (\<lambda>x. x \<noteq> c) (rev s)))
      else - 1)"

text \<open>The slices \<^verbatim>\<open>s[i:j]\<close> and \<^verbatim>\<open>s[i:]\<close>, used by the source with \<open>0 \<le> i\<close> only.\<close>

definition slice :: "string \<Rightarrow> int \<Rightarrow> int \<Rightarrow> string" where
  "slice s i j = take (nat (j - i)) (drop (nat i) s)"

definition slice_from :: "string \<Rightarrow> int \<Rightarrow> string" where
  "slice_from s i = drop (nat i) s"

text \<open>
  One round of the loop of \<^verbatim>\<open>_process_json_stream\<close> (qianwen.py, lines 293 to 380) on
  the state \<open>(buffer, accumulated_text)\<close>.  The buffer is cut at line 309, before
  \<^verbatim>\<open>json.loads\<close> runs at line 311.  Both \<^verbatim>\<open>except\<close> clauses go on with the next chunk, so
  an exception ends the round and keeps what the round has yielded and assigned.
\<close>

definition json_chunk ::
  "(string \<Rightarrow> json option) \<Rightarrow> (string \<Rightarrow> string) \<Rightarrow> string \<times> string \<Rightarrow> string
     \<Rightarrow> llm_response list \<times> (string \<times> string)" where
  "json_chunk loads decode state chunk =
     (case state of
        (buffer0, accumulated_text) \<Rightarrow>
          if chunk = [] then ([], (buffer0, accumulated_text))
          else
            let buffer = buffer0 @ decode chunk;
                start = find_chr CHR ''{'' buffer;
                endp = rfind_chr CHR ''}'' buffer
            in if start \<noteq> - 1 \<and> endp \<noteq> - 1 \<and> endp > start then
                 (let json_str = slice buffer start (endp + 1);
                      buffer' = slice_from buffer (endp + 1)
                  in case loads json_str of
                       None \<Rightarrow> ([], (buffer', accumulated_text))
                     | Some data \<Rightarrow>
                         (case json_unit accumulated_text data of
                            (yielded, accumulated_text', err) \<Rightarrow>
                              (yielded, (buffer', accumulated_text'))))
               else ([], (buffer, accumulated_text)))"

fun json_chunks ::
  "(string \<Rightarrow> json option) \<Rightarrow> (string \<Rightarrow> string) \<Rightarrow> string \<times> string \<Rightarrow> string list
     \<Rightarrow> llm_response list" where
  "json_chunks loads decode state [] = []"
| "json_chunks loads decode state (chunk # chunks) =
     (case json_chunk loads decode state chunk of
        (yielded, state') \<Rightarrow> yielded @ json_chunks loads decode state' chunks)"

text \<open>\<^verbatim>\<open>_process_json_stream\<close>: the responses yielded for the chunks of one response.\<close>

definition process_json_stream ::
  "(string \<Rightarrow> json option) \<Rightarrow> (string \<Rightarrow> string) \<Rightarrow> string list \<Rightarrow> llm_response list" where
  "process_json_stream loads decode chunks = json_chunks loads decode ([], []) chunks"

text \<open>
  The inner loop of \<^verbatim>\<open>_process_sse_stream\<close> (qianwen.py, lines 395 to 457):
  \<^verbatim>\<open>while '\n' in buffer\<close>.  It gives the responses yielded, the state
  \<open>(buffer, accumulated_text)\<close> it leaves, and the exception that ends the generator if
  one is raised: only \<^verbatim>\<open>JSONDecodeError\<close> is caught here.  The \<^verbatim>\<open>break\<close> at
  \<^verbatim>\<open>[DONE]\<close> leaves this loop.
\<close>

function sse_lines ::
  "(string \<Rightarrow> json option) \<Rightarrow> string \<Rightarrow> string
     \<Rightarrow> llm_response list \<times> (string \<times> string) \<times> pyerror option" where
  "sse_lines loads buffer accumulated_text =
     (if CHR 0x0A \<in> set buffer then
        (let line = strip (takeWhile (\<lambda>c. c \<noteq> CHR 0x0A) buffer);
             buffer' = tl (dropWhile (\<lambda>c. c \<noteq> CHR 0x0A) buffer)
         in if line = [] then sse_lines loads buffer' accumulated_text
            else if prefix ''data: '' line then
              (let data_str = drop 6 line
               in if data_str = ''[DONE]'' then ([], (buffer', accumulated_text), None)
                  else
                    (case loads data_str of
                       None \<Rightarrow> sse_lines loads buffer' accumulated_text
                     | Some data \<Rightarrow>
                         (case sse_unit accumulated_text data of
                            (yielded, accumulated_text', err) \<Rightarrow>
                              (case err of
                                 Some e \<Rightarrow> (yielded, (buffer', accumulated_text'), Some e)
                               | None \<Rightarrow>
                                   (case sse_lines loads buffer' accumulated_text' of
                                      (later, state, err') \<Rightarrow> (yielded @ later, state, err'))))))
            else sse_lines loads buffer' accumulated_text)
      else ([], (buffer, accumulated_text), None))"
  by pat_completeness auto
termination
proof -
  have shorter: "length (tl (dropWhile (\<lambda>c. c \<noteq> x) xs)) < length xs" if "x \<in> set xs"
    for x :: char and xs
  proof -
    from that have "dropWhile (\<lambda>c. c \<noteq> x) xs \<noteq> []" by simp
    then have "length (tl (dropWhile (\<lambda>c. c \<noteq> x) xs)) < length (dropWhile (\<lambda>c. c \<noteq> x) xs)"
      by (cases "dropWhile (\<lambda>c. c \<noteq> x) xs") simp_all
    also have "\<dots> \<le> length xs" by (rule length_dropWhile_le)
    finally show ?thesis .
  qed
  then have "length (dropWhile (\<lambda>c. c \<noteq> x) xs) - Suc 0 < length xs" if "x \<in> set xs"
    for x :: char and xs
    using that by simp
  then show ?thesis
    by (relation "measure (\<lambda>(loads, buffer, accumulated_text). length buffer)") simp_all
qed

declare sse_lines.simps [simp del]

text \<open>
  The outer loop of \<^verbatim>\<open>_process_sse_stream\<close> (qianwen.py, lines 387 to 392) over the
  chunks that are left, from the state \<open>(buffer, accumulated_text)\<close>.
\<close>

fun sse_chunks ::
  "(string \<Rightarrow> json option) \<Rightarrow> (string \<Rightarrow> string) \<Rightarrow> string \<times> string \<Rightarrow> string list
     \<Rightarrow> llm_response list \<times> pyerror option" where
  "sse_chunks loads decode state [] = ([], None)"
| "sse_chunks loads decode state (chunk # chunks) =
     (if chunk = [] then sse_chunks loads decode state chunks
      else
        (case state of
           (buffer, accumulated_text) \<Rightarrow>
             (case sse_lines loads (buffer @ decode chunk) accumulated_text of
                (yielded, state', err) \<Rightarrow>
                  (case err of
                     Some e \<Rightarrow> (yielded, Some e)
                   | None \<Rightarrow>
                       (case sse_chunks loads decode state' chunks of
                          (later, err') \<Rightarrow> (yielded @ later, err'))))))"

text \<open>
  \<^verbatim>\<open>_process_sse_stream\<close>: the responses yielded for the chunks of one response, and the
  exception that ended the generator, if any.
\<close>

definition process_sse_stream ::
  "(string \<Rightarrow> json option) \<Rightarrow> (string \<Rightarrow> string) \<Rightarrow> string list
     \<Rightarrow> llm_response list \<times> pyerror option" where
  "process_sse_stream loads decode chunks = sse_chunks loads decode ([], []) chunks"

section \<open>The non-streaming path of the Qwen adapter\<close>

text \<open>
  \<^verbatim>\<open>types.Part(text=v)\<close> on a decoded value: the field is an optional string, and the
  library refuses any other value.
\<close>

fun make_part :: "json \<Rightarrow> pyerror + part" where
  "make_part (JStr s) = Inr (Part (Some s))"
| "make_part JNull = Inr (Part None)"
| "make_part v = Inl ValidationError"

text \<open>The text of a whole response (qianwen.py, lines 463 to 470).\<close>

definition response_text :: "json \<Rightarrow> pyerror + json" where
  "response_text response_data =
     andthen (py_in ''output'' response_data) (\<lambda>has_output.
       if has_output then
         andthen (py_get response_data ''output'' (JObj [])) (\<lambda>output.
           py_get output ''text'' (JStr []))
       else
         andthen (py_in ''choices'' response_data) (\<lambda>has_choices.
           if has_choices then
             andthen (py_get response_data ''choices'' (JArr [])) (\<lambda>choices.
               if truthy choices then
                 andthen (py_first choices) (\<lambda>choice.
                 andthen (py_get choice ''message'' (JObj [])) (\<lambda>message.
                   py_get message ''content'' (JStr [])))
               else Inr (JStr []))
           else Inr (JStr [])))"

text \<open>The rest of the \<^verbatim>\<open>try\<close> block (qianwen.py, lines 473 to 490).\<close>

definition response_of_text :: "json \<Rightarrow> json \<Rightarrow> pyerror + llm_response" where
  "response_of_text response_data text0 =
     andthen (py_get response_data ''usage'' (JObj [])) (\<lambda>usage.
     andthen (py_get response_data ''finish_reason'' (JStr ''stop'')) (\<lambda>finish_reason_str.
     andthen (qwen_map_finish_reason finish_reason_str) (\<lambda>r.
     andthen (make_part text0) (\<lambda>p.
     andthen (py_get usage ''input_tokens'' (JInt 0)) (\<lambda>input_tokens.
     andthen (py_get usage ''total_tokens'' (JInt 0)) (\<lambda>total_tokens.
       Inr \<lparr>content = Some (Content [p] ''assistant''), finish_reason = r,
            usage_metadata = Some (UsageMetadata input_tokens total_tokens)\<rparr>))))))"

text \<open>
  The \<^verbatim>\<open>except\<close> block (qianwen.py, lines 491 to 501), with the text as it was when the
  exception was raised.  An exception raised here leaves the function.
\<close>

definition response_fallback :: "json \<Rightarrow> json \<Rightarrow> pyerror + llm_response" where
  "response_fallback response_data text0 =
     andthen (make_part text0) (\<lambda>p.
     andthen (py_get response_data ''finish_reason'' (JStr ''stop'')) (\<lambda>finish_reason_str.
     andthen (qwen_map_finish_reason finish_reason_str) (\<lambda>r.
       Inr \<lparr>content = Some (Content [p] ''assistant''), finish_reason = r,
            usage_metadata = None\<rparr>)))"

text \<open>\<^verbatim>\<open>QwenLlm._parse_qwen_response\<close> (qianwen.py, lines 459 to 501).\<close>

definition parse_qwen_response :: "json \<Rightarrow> pyerror + llm_response" where
  "parse_qwen_response response_data =
     (case response_text response_data of
        Inl e \<Rightarrow> response_fallback response_data (JStr [])
      | Inr text0 \<Rightarrow>
          (case response_of_text response_data text0 of
             Inl e \<Rightarrow> response_fallback response_data text0
           | Inr r \<Rightarrow> Inr r))"

text \<open>
  \<^verbatim>\<open>QwenLlm.generate_content_async\<close> (qianwen.py, lines 142 to 179) once the request is
  answered.  Without streaming the decoded body is parsed and the one response is
  yielded; with streaming the content type of the answer selects the processor.
\<close>

definition qwen_generate_response :: "json \<Rightarrow> llm_response list \<times> pyerror option" where
  "qwen_generate_response data =
     (case parse_qwen_response data of
        Inl e \<Rightarrow> ([], Some e)
      | Inr llm_response \<Rightarrow> ([llm_response], None))"

definition qwen_generate_stream ::
  "(string \<Rightarrow> json option) \<Rightarrow> (string \<Rightarrow> string) \<Rightarrow> string \<Rightarrow> string list
     \<Rightarrow> llm_response list \<times> pyerror option" where
  "qwen_generate_stream loads decode content_type chunks =
     (if sublist ''text/event-stream'' content_type
      then process_sse_stream loads decode chunks
      else (process_json_stream loads decode chunks, None))"

section \<open>The OpenAI adapter\<close>

text \<open>
  The typed objects of the client library, with the attributes the adapter reads: a
  streamed choice with \<^verbatim>\<open>delta.content\<close> and \<^verbatim>\<open>finish_reason\<close>, a chunk with its
  choices; a message with its content, a choice with \<^verbatim>\<open>message\<close> and
  \<^verbatim>\<open>finish_reason\<close>, a completion with its choices and its usage
  (\<^verbatim>\<open>prompt_tokens\<close>, \<^verbatim>\<open>total_tokens\<close>).
\<close>

datatype chunk_choice = ChunkChoice "string option" "string option"

datatype chunk = Chunk "chunk_choice list"

datatype message = Message "string option"

datatype choice = Choice "message option" "string option"

datatype completion = Completion "choice list" "(int \<times> int) option"

text \<open>\<^verbatim>\<open>OpenAILlm._parse_openai_chunk\<close> (openai_client.py, lines 162 to 198).\<close>

fun parse_openai_chunk :: "chunk \<Rightarrow> llm_response" where
  "parse_openai_chunk (Chunk []) = final_response None None"
| "parse_openai_chunk (Chunk (ChunkChoice delta_content reason # rest)) =
     (let text_content = (case delta_content of None \<Rightarrow> [] | Some s \<Rightarrow> s)
      in if text_content \<noteq> [] then text_response text_content
         else if reason \<noteq> None \<and> reason \<noteq> Some []
           then final_response (openai_map_finish_reason reason) None
         else final_response None None)"

text \<open>
  The streaming branch of \<^verbatim>\<open>OpenAILlm.generate_content_async\<close> (openai_client.py,
  lines 148 to 155): one response for each chunk, then a final response.
\<close>

definition openai_generate_stream :: "chunk list \<Rightarrow> llm_response list" where
  "openai_generate_stream stream_response =
     map parse_openai_chunk stream_response @ [final_response (Some STOP) None]"

text \<open>
  \<^verbatim>\<open>OpenAILlm._parse_openai_response\<close> (openai_client.py, lines 200 to 235).  On the
  typed objects nothing in the \<^verbatim>\<open>try\<close> block raises.
\<close>

fun parse_openai_response :: "completion \<Rightarrow> llm_response" where
  "parse_openai_response (Completion choices usage) =
     (let text0 =
            (case choices of
               Choice (Some (Message (Some s))) reason # rest \<Rightarrow> s
             | _ \<Rightarrow> []);
          finish_reason_str =
            (case choices of
               Choice m reason # rest \<Rightarrow> reason
             | [] \<Rightarrow> Some ''stop'')
      in \<lparr>content = Some (Content [Part (Some text0)] ''assistant''),
          finish_reason = openai_map_finish_reason finish_reason_str,
          usage_metadata =
            (case usage of
               None \<Rightarrow> None
             | Some (prompt_tokens, total_tokens) \<Rightarrow>
                 Some (UsageMetadata (JInt prompt_tokens) (JInt total_tokens)))\<rparr>)"

text \<open>The branch without streaming (openai_client.py, lines 128 to 138).\<close>

definition openai_generate_response :: "completion \<Rightarrow> llm_response list" where
  "openai_generate_response response = [parse_openai_response response]"

section \<open>The message adapter: generation parameters\<close>

text \<open>
  A configuration object is read by attribute name only: \<^verbatim>\<open>hasattr\<close>, \<^verbatim>\<open>getattr\<close> and the
  attribute itself.  It is modelled as the map from the names of the attributes it has
  to their values, \<^const>\<open>JNull\<close> being \<^verbatim>\<open>None\<close>; \<^verbatim>\<open>request.config\<close> may be \<^verbatim>\<open>None\<close>
  itself.  A dictionary of parameters is the list of its items in insertion order.
\<close>

type_synonym config = "(string \<Rightarrow> json option) option"

text \<open>\<^verbatim>\<open>getattr(config, name, default)\<close>: the default only where the attribute is missing.\<close>

definition py_getattr :: "config \<Rightarrow> string \<Rightarrow> json \<Rightarrow> json" where
  "py_getattr config name dflt =
     (case config of
        None \<Rightarrow> dflt
      | Some attrs \<Rightarrow> (case attrs name of None \<Rightarrow> dflt | Some v \<Rightarrow> v))"

text \<open>
  \<^verbatim>\<open>if config and hasattr(config, name) and config.name is not None: params[key] = config.name\<close>,
  as the items it adds.
\<close>

definition optional_param :: "config \<Rightarrow> string \<Rightarrow> string \<Rightarrow> (string \<times> json) list" where
  "optional_param config name key =
     (case config of
        None \<Rightarrow> []
      | Some attrs \<Rightarrow>
          (case attrs name of
             None \<Rightarrow> []
           | Some v \<Rightarrow> if v \<noteq> JNull then [(key, v)] else []))"

text \<open>\<^verbatim>\<open>QwenLlm._convert_to_qwen_parameters\<close> (qianwen.py, lines 89 to 108).\<close>

definition convert_to_qwen_parameters :: "config \<Rightarrow> (string \<times> json) list" where
  "convert_to_qwen_parameters config =
     [(''temperature'', py_getattr config ''temperature'' (JFloat (7 / 10))),
      (''max_tokens'', py_getattr config ''max_output_tokens'' (JInt 2048))]
     @ optional_param config ''top_p'' ''top_p''
     @ optional_param config ''top_k'' ''top_k''
     @ optional_param config ''repetition_penalty'' ''repetition_penalty''"

text \<open>The fields of an \<^verbatim>\<open>OpenAILlm\<close> that its parameters depend on.\<close>

record openai_llm =
  model_name :: string
  default_temperature :: json
  default_max_tokens :: json

text \<open>\<^verbatim>\<open>OpenAILlm._get_generation_parameters\<close> (openai_client.py, lines 86 to 106).\<close>

definition get_generation_parameters :: "openai_llm \<Rightarrow> config \<Rightarrow> (string \<times> json) list" where
  "get_generation_parameters self config =
     [(''model'', JStr (model_name self)),
      (''temperature'', py_getattr config ''temperature'' (default_temperature self)),
      (''max_tokens'', py_getattr config ''max_output_tokens'' (default_max_tokens self))]
     @ optional_param config ''top_p'' ''top_p''
     @ optional_param config ''frequency_penalty'' ''frequency_penalty''
     @ optional_param config ''presence_penalty'' ''presence_penalty''"

section \<open>The SSE event framer\<close>

text \<open>\<^verbatim>\<open>str(n)\<close> for a natural number: its decimal digits.\<close>

definition digit_chr :: "nat \<Rightarrow> char" where
  "digit_chr d = ''0123456789'' ! d"

function str_nat :: "nat \<Rightarrow> string" where
  "str_nat n = (if n < 10 then [digit_chr n] else str_nat (n div 10) @ [digit_chr (n mod 10)])"
  by pat_completeness auto
termination
  by (relation "measure (\<lambda>n. n)") auto

declare str_nat.simps [simp del]

text \<open>
  \<^verbatim>\<open>SSEGenerator\<close> (main.py, lines 54 to 68).  The counter starts at 0 and is only
  ever incremented, so it is a natural number.  \<^verbatim>\<open>json.dumps(data, ensure_ascii=False)\<close>
  is the parameter \<open>dumps\<close>.  The dictionary \<^verbatim>\<open>event\<close> built in between is not used.
\<close>

record sse_generator =
  event_id :: nat

definition generate_sse_event ::
  "('d \<Rightarrow> string) \<Rightarrow> sse_generator \<Rightarrow> 'd \<Rightarrow> string \<Rightarrow> string \<times> sse_generator" where
  "generate_sse_event dumps self data event_type =
     (let self' = self\<lparr>event_id := event_id self + 1\<rparr>
      in (''id: '' @ str_nat (event_id self') @ [CHR 0x0A] @ ''event: '' @ event_type
            @ [CHR 0x0A] @ ''data: '' @ dumps data @ [CHR 0x0A, CHR 0x0A],
          self'))"

text \<open>The module-level \<^verbatim>\<open>sse_generator = SSEGenerator()\<close> (main.py, line 70), as created.\<close>

definition new_sse_generator :: sse_generator where
  "new_sse_generator = \<lparr>event_id = 0\<rparr>"

text \<open>
  The frames of one connection.  Its handler (\<^verbatim>\<open>agent_stream_generator\<close> and
  \<^verbatim>\<open>chat_stream\<close>, main.py, lines 72 to 274) yields one frame for each event it has to
  send, each the result of a call of \<^verbatim>\<open>sse_generator.generate_sse_event\<close>; the events
  are given as their pairs of data and type, in the order they are sent.
\<close>

fun connection_frames ::
  "('d \<Rightarrow> string) \<Rightarrow> sse_generator \<Rightarrow> ('d \<times> string) list \<Rightarrow> string list \<times> sse_generator" where
  "connection_frames dumps gen [] = ([], gen)"
| "connection_frames dumps gen ((data, event_type) # events) =
     (case generate_sse_event dumps gen data event_type of
        (frame, gen') \<Rightarrow>
          (case connection_frames dumps gen' events of
             (frames, gen'') \<Rightarrow> (frame # frames, gen'')))"

text \<open>
  Connections served one after the other by one process: all of them use the one
  generator of the module.
\<close>

fun serve ::
  "('d \<Rightarrow> string) \<Rightarrow> sse_generator \<Rightarrow> ('d \<times> string) list list \<Rightarrow> string list list" where
  "serve dumps gen [] = []"
| "serve dumps gen (events # connections) =
     (case connection_frames dumps gen events of
        (frames, gen') \<Rightarrow> frames # serve dumps gen' connections)"

section \<open>Theorems\<close>

subsection \<open>The finish reason mapper\<close>




subsection \<open>The response unifier on cumulative and on incremental texts\<close>

lemma text_and_reason_output:
  assumes "map_of d ''output'' = Some (JObj outp)"
  shows "text_and_reason (JObj d) =
           Inr (case map_of outp ''text'' of Some x \<Rightarrow> x | None \<Rightarrow> JStr [],
                case map_of outp ''finish_reason'' of Some x \<Rightarrow> x | None \<Rightarrow> JNull)"
  using assms by (simp add: text_and_reason_def andthen_def)

lemma incremental_prefix:
  "prefix acc s \<Longrightarrow> incremental acc (JStr s) = Inr (if s = [] then None else Some (drop (length acc) s), s)"
  by (auto simp: incremental_def)

lemma usage_of_dict: "\<exists>u. usage_of (JObj d) = Inr u"
  by (cases "map_of d ''usage''") (simp_all add: usage_of_def andthen_def)

lemma response_chunk_text [simp]: "response_chunk (text_response t) = t"
  by (simp add: text_response_def response_chunk_def)

lemma sse_unit_output:
  assumes "map_of d ''output'' = Some (JObj outp)" and "map_of outp ''text'' = Some (JStr T)"
    and "prefix acc T"
    and fr: "fr = (case map_of outp ''finish_reason'' of Some x \<Rightarrow> x | None \<Rightarrow> JNull)"
  shows "sse_unit acc (JObj d) =
     (map text_response (filter (\<lambda>t. t \<noteq> []) [drop (length acc) T])
        @ (if truthy fr
           then (case qwen_map_finish_reason fr of Inl e \<Rightarrow> [] | Inr r \<Rightarrow> [final_response r None])
           else []),
      T,
      (if truthy fr
       then (case qwen_map_finish_reason fr of Inl e \<Rightarrow> Some e | Inr r \<Rightarrow> None)
       else None))"
proof -
  have t: "text_and_reason (JObj d) = Inr (JStr T, fr)"
    using assms by (simp add: text_and_reason_output)
  have i: "incremental acc (JStr T) = Inr (if T = [] then None else Some (drop (length acc) T), T)"
    using assms(3) by (rule incremental_prefix)
  show ?thesis
    by (cases "qwen_map_finish_reason fr") (auto simp: sse_unit_def t i)
qed

lemma json_unit_output:
  assumes "map_of d ''output'' = Some (JObj outp)" and "map_of outp ''text'' = Some (JStr T)"
    and "prefix acc T"
  shows "\<exists>F err. json_unit acc (JObj d) =
     (map (\<lambda>t. text_response (clean_markdown_json t)) (filter (\<lambda>t. t \<noteq> []) [drop (length acc) T]) @ F,
      T, err) \<and> (F = [] \<or> (\<exists>r u. F = [final_response r u]))"
proof -
  define fr where "fr = (case map_of outp ''finish_reason'' of Some x \<Rightarrow> x | None \<Rightarrow> JNull)"
  have t: "text_and_reason (JObj d) = Inr (JStr T, fr)"
    using assms by (simp add: text_and_reason_output fr_def)
  have i: "incremental acc (JStr T) = Inr (if T = [] then None else Some (drop (length acc) T), T)"
    using assms(3) by (rule incremental_prefix)
  obtain v where v: "usage_of (JObj d) = Inr v" using usage_of_dict by blast
  show ?thesis
  proof (cases "truthy fr")
    case False
    then have "json_unit acc (JObj d) =
       (map (\<lambda>t. text_response (clean_markdown_json t)) (filter (\<lambda>t. t \<noteq> []) [drop (length acc) T]) @ [],
        T, None)"
      by (auto simp: json_unit_def t i v)
    then show ?thesis by blast
  next
    case True
    show ?thesis
    proof (cases "qwen_map_finish_reason fr")
      case (Inl e)
      with True have "json_unit acc (JObj d) =
       (map (\<lambda>t. text_response (clean_markdown_json t)) (filter (\<lambda>t. t \<noteq> []) [drop (length acc) T]) @ [],
        T, Some e)"
        by (auto simp: json_unit_def t i v)
      then show ?thesis by blast
    next
      case (Inr r)
      note m = Inr
      show ?thesis
      proof (cases "usage_metadata_of v")
        case (Inl e)
        with True m have "json_unit acc (JObj d) =
         (map (\<lambda>t. text_response (clean_markdown_json t)) (filter (\<lambda>t. t \<noteq> []) [drop (length acc) T]) @ [],
          T, Some e)"
          by (auto simp: json_unit_def t i v)
        then show ?thesis by blast
      next
        case (Inr u)
        with True m have "json_unit acc (JObj d) =
         (map (\<lambda>t. text_response (clean_markdown_json t)) (filter (\<lambda>t. t \<noteq> []) [drop (length acc) T])
            @ [final_response r u],
          T, None)"
          by (auto simp: json_unit_def t i v)
        then show ?thesis by blast
      qed
    qed
  qed
qed

lemma sse_lines_no_newline:
  "CHR 0x0A \<notin> set buffer \<Longrightarrow> sse_lines loads buffer acc = ([], (buffer, acc), None)"
  by (subst sse_lines.simps) simp

lemma strip_Nil: "strip [] = []"
  by (simp add: strip_def)

lemma sse_lines_empty_line:
  "sse_lines loads (CHR 0x0A # rest) acc = sse_lines loads rest acc"
  by (subst sse_lines.simps) (simp add: strip_Nil)

lemma strip_data_line: "strip (''data: '' @ CHR ''{'' # m @ ''}'') = ''data: '' @ CHR ''{'' # m @ ''}''"
  by (simp add: strip_def isspace_def)

lemma sse_lines_data_line:
  assumes s: "s = CHR ''{'' # m @ ''}''" and nl: "CHR 0x0A \<notin> set s" and l: "loads s = Some data"
  shows "sse_lines loads (''data: '' @ s @ CHR 0x0A # rest) acc =
     (case sse_unit acc data of
        (yielded, acc', err) \<Rightarrow>
          (case err of
             Some e \<Rightarrow> (yielded, (rest, acc'), Some e)
           | None \<Rightarrow>
               (case sse_lines loads rest acc' of
                  (later, state, err') \<Rightarrow> (yielded @ later, state, err'))))"
proof -
  have tw: "takeWhile (\<lambda>c. c \<noteq> CHR 0x0A) (''data: '' @ s @ CHR 0x0A # rest) = ''data: '' @ s"
    using nl by (simp add: takeWhile_append)
  have dw: "dropWhile (\<lambda>c. c \<noteq> CHR 0x0A) (''data: '' @ s @ CHR 0x0A # rest) = CHR 0x0A # rest"
    using nl by (simp add: dropWhile_append)
  have st: "strip (''data: '' @ s) = ''data: '' @ s"
    unfolding s by (rule strip_data_line)
  have nd: "s \<noteq> ''[DONE]''" using s by simp
  show ?thesis
    apply (subst sse_lines.simps)
    apply (simp only: tw dw st Let_def)
    using nd l apply (simp split: prod.splits option.splits)
    done
qed


lemma sse_lines_unit_chunk:
  assumes s: "s = CHR ''{'' # m @ ''}''" and nl: "CHR 0x0A \<notin> set s" and l: "loads s = Some data"
  shows "sse_lines loads (''data: '' @ s @ [CHR 0x0A, CHR 0x0A]) acc =
     (case sse_unit acc data of
        (yielded, acc', err) \<Rightarrow>
          (case err of
             Some e \<Rightarrow> (yielded, ([CHR 0x0A], acc'), Some e)
           | None \<Rightarrow> (yielded, ([], acc'), None)))"
  using sse_lines_data_line [of s m loads data "[CHR 0x0A]" acc] s nl l
  by (simp add: sse_lines_empty_line sse_lines_no_newline split: prod.splits option.splits)

lemma json_chunk_unit:
  assumes c: "chunk \<noteq> []" and d: "decode chunk = s" and s: "s = CHR ''{'' # m @ ''}''"
    and l: "loads s = Some data"
  shows "json_chunk loads decode ([], acc) chunk =
     (fst (json_unit acc data), ([], fst (snd (json_unit acc data))))"
proof -
  have f: "find_chr CHR ''{'' s = 0" by (simp add: find_chr_def s)
  have r: "rfind_chr CHR ''}'' s = int (length m) + 1" by (simp add: rfind_chr_def s)
  have sl: "slice s 0 (2 + int (length m)) = s"
    by (simp add: slice_def s)
  have sf: "slice_from s (2 + int (length m)) = []"
    by (simp add: slice_from_def s)
  show ?thesis
    using c l by (simp add: json_chunk_def d f r sl sf Let_def split: prod.splits)
qed

lemma content_text_response [simp]: "content (text_response t) \<noteq> None"
  by (simp add: text_response_def)

lemma content_final_response [simp]: "content (final_response r u) = None"
  by (simp add: final_response_def)

lemma response_chunk_final [simp]: "response_chunk (final_response r u) = []"
  by (simp add: response_chunk_def final_response_def)

lemma full_response_deltas:
  "full_response (map text_response (filter (\<lambda>t. t \<noteq> []) [a]) @ F1
      @ map text_response (filter (\<lambda>t. t \<noteq> []) [b]) @ F2) = a @ b"
  if "F1 = [] \<or> (\<exists>r u. F1 = [final_response r u])" "F2 = [] \<or> (\<exists>r u. F2 = [final_response r u])"
  using that by (auto simp: full_response_def)

lemma filter_deltas:
  "filter (\<lambda>e. content e \<noteq> None) (map f (filter (\<lambda>t. t \<noteq> []) [a]) @ F1
      @ map f (filter (\<lambda>t. t \<noteq> []) [b]) @ F2) = map f (filter (\<lambda>t. t \<noteq> []) [a, b])"
  if "F1 = [] \<or> (\<exists>r u. F1 = [final_response r u])" "F2 = [] \<or> (\<exists>r u. F2 = [final_response r u])"
    "\<And>t. content (f t) \<noteq> None"
  using that by auto

text \<open>
  Claim C1, as amended.  Two units of Shape A (a dictionary whose \<^verbatim>\<open>output\<close> is a
  dictionary with a \<^verbatim>\<open>text\<close>) carry the texts \<open>T1\<close> and then \<open>T2\<close>, where \<open>T2\<close> starts
  with \<open>T1\<close>.  Each is the decoding of a JSON text on one line, between an opening and a
  closing brace, and each arrives in a chunk of its own: on the SSE path as a
  \<^verbatim>\<open>data: \<close> line followed by an empty line, on the JSON path as the JSON text.  The
  processors start with an empty buffer and an empty accumulated text.  On the SSE path
  the responses with a content are the fragments \<open>T1\<close> and the rest of \<open>T2\<close> after \<open>T1\<close>,
  in this order and each only if it is not empty, and the text put together from the
  responses is \<open>T2\<close>; this needs that the finish reason of the first unit, if it has
  one, does not make the mapper raise (it is missing, falsy or a string), for an
  exception ends the generator before the second unit.  On the JSON path the responses
  with a content are the same two fragments after they went through
  \<^const>\<open>clean_markdown_json\<close>, whatever the finish reasons are.
\<close>

theorem cumulative_text_deltas:
  assumes pre: "prefix T1 T2"
    and s1: "s1 = CHR ''{'' # m1 @ ''}''" "CHR 0x0A \<notin> set s1" "loads s1 = Some (JObj d1)"
    and u1: "map_of d1 ''output'' = Some (JObj o1)" "map_of o1 ''text'' = Some (JStr T1)"
    and s2: "s2 = CHR ''{'' # m2 @ ''}''" "CHR 0x0A \<notin> set s2" "loads s2 = Some (JObj d2)"
    and u2: "map_of d2 ''output'' = Some (JObj o2)" "map_of o2 ''text'' = Some (JStr T2)"
    and c1: "c1 \<noteq> []" "decode c1 = ''data: '' @ s1 @ [CHR 0x0A, CHR 0x0A]"
    and c2: "c2 \<noteq> []" "decode c2 = ''data: '' @ s2 @ [CHR 0x0A, CHR 0x0A]"
    and b1: "b1 \<noteq> []" "decode b1 = s1"
    and b2: "b2 \<noteq> []" "decode b2 = s2"
  shows "((\<exists>r. qwen_map_finish_reason
              (case map_of o1 ''finish_reason'' of Some x \<Rightarrow> x | None \<Rightarrow> JNull) = Inr r) \<longrightarrow>
          filter (\<lambda>e. content e \<noteq> None) (fst (process_sse_stream loads decode [c1, c2]))
            = map text_response (filter (\<lambda>t. t \<noteq> []) [T1, drop (length T1) T2])
          \<and> full_response (fst (process_sse_stream loads decode [c1, c2])) = T2)
       \<and> filter (\<lambda>e. content e \<noteq> None) (process_json_stream loads decode [b1, b2])
            = map (\<lambda>t. text_response (clean_markdown_json t))
                (filter (\<lambda>t. t \<noteq> []) [T1, drop (length T1) T2])"
proof -
  define fr1 where "fr1 = (case map_of o1 ''finish_reason'' of Some x \<Rightarrow> x | None \<Rightarrow> JNull)"
  define fr2 where "fr2 = (case map_of o2 ''finish_reason'' of Some x \<Rightarrow> x | None \<Rightarrow> JNull)"
  have cat: "T1 @ drop (length T1) T2 = T2"
    using pre by (auto simp: prefix_def)
  have sse: "filter (\<lambda>e. content e \<noteq> None) (fst (process_sse_stream loads decode [c1, c2]))
            = map text_response (filter (\<lambda>t. t \<noteq> []) [T1, drop (length T1) T2])
          \<and> full_response (fst (process_sse_stream loads decode [c1, c2])) = T2"
    if ok: "\<exists>r. qwen_map_finish_reason fr1 = Inr r"
  proof -
    from ok obtain r1 where r1: "qwen_map_finish_reason fr1 = Inr r1" by blast
    define F1 where "F1 = (if truthy fr1 then [final_response r1 None] else [])"
    define F2 where "F2 = (if truthy fr2
           then (case qwen_map_finish_reason fr2 of Inl e \<Rightarrow> [] | Inr r \<Rightarrow> [final_response r None])
           else [])"
    define E2 where "E2 = (if truthy fr2
       then (case qwen_map_finish_reason fr2 of Inl e \<Rightarrow> Some e | Inr r \<Rightarrow> None)
       else None)"
    have F1: "F1 = [] \<or> (\<exists>r u. F1 = [final_response r u])" by (auto simp: F1_def)
    have F2: "F2 = [] \<or> (\<exists>r u. F2 = [final_response r u])"
      by (cases "qwen_map_finish_reason fr2") (auto simp: F2_def)
    have a1: "sse_unit [] (JObj d1) =
        (map text_response (filter (\<lambda>t. t \<noteq> []) [T1]) @ F1, T1, None)"
      using sse_unit_output [OF u1, of "[]" fr1] r1 by (simp add: fr1_def F1_def)
    have a2: "sse_unit T1 (JObj d2) =
        (map text_response (filter (\<lambda>t. t \<noteq> []) [drop (length T1) T2]) @ F2, T2, E2)"
      using sse_unit_output [OF u2 pre, of fr2] by (simp add: fr2_def F2_def E2_def)
    have l1: "sse_lines loads (decode c1) [] =
        (map text_response (filter (\<lambda>t. t \<noteq> []) [T1]) @ F1, ([], T1), None)"
      unfolding c1 using sse_lines_unit_chunk [of s1 m1 loads "JObj d1" "[]"] s1 by (simp add: a1)
    have l2: "fst (sse_lines loads (decode c2) T1) =
        map text_response (filter (\<lambda>t. t \<noteq> []) [drop (length T1) T2]) @ F2"
      unfolding c2 using sse_lines_unit_chunk [of s2 m2 loads "JObj d2" T1] s2
      by (simp add: a2 split: option.splits)
    have ev: "fst (process_sse_stream loads decode [c1, c2]) =
        map text_response (filter (\<lambda>t. t \<noteq> []) [T1]) @ F1
        @ map text_response (filter (\<lambda>t. t \<noteq> []) [drop (length T1) T2]) @ F2"
      using c1(1) c2(1) l1 l2
      by (cases "sse_lines loads (decode c2) T1")
        (auto simp: process_sse_stream_def split: option.splits prod.splits)
    show ?thesis
      unfolding ev using filter_deltas [OF F1 F2, of text_response T1 "drop (length T1) T2"]
        full_response_deltas [OF F1 F2, of T1 "drop (length T1) T2"] cat
      by simp
  qed
  have json: "filter (\<lambda>e. content e \<noteq> None) (process_json_stream loads decode [b1, b2])
            = map (\<lambda>t. text_response (clean_markdown_json t))
                (filter (\<lambda>t. t \<noteq> []) [T1, drop (length T1) T2])"
  proof -
    obtain F1 e1 where j1: "json_unit [] (JObj d1) =
       (map (\<lambda>t. text_response (clean_markdown_json t)) (filter (\<lambda>t. t \<noteq> []) [T1]) @ F1, T1, e1)"
      and F1: "F1 = [] \<or> (\<exists>r u. F1 = [final_response r u])"
      using json_unit_output [OF u1, of "[]"] by auto
    obtain F2 e2 where j2: "json_unit T1 (JObj d2) =
       (map (\<lambda>t. text_response (clean_markdown_json t)) (filter (\<lambda>t. t \<noteq> []) [drop (length T1) T2]) @ F2,
        T2, e2)"
      and F2: "F2 = [] \<or> (\<exists>r u. F2 = [final_response r u])"
      using json_unit_output [OF u2 pre] by auto
    have k1: "json_chunk loads decode ([], []) b1 =
       (map (\<lambda>t. text_response (clean_markdown_json t)) (filter (\<lambda>t. t \<noteq> []) [T1]) @ F1, ([], T1))"
      using json_chunk_unit [of b1 decode s1 m1 loads "JObj d1" "[]"] b1 s1 by (simp add: j1)
    have k2: "json_chunk loads decode ([], T1) b2 =
       (map (\<lambda>t. text_response (clean_markdown_json t)) (filter (\<lambda>t. t \<noteq> []) [drop (length T1) T2]) @ F2,
        ([], T2))"
      using json_chunk_unit [of b2 decode s2 m2 loads "JObj d2" T1] b2 s2 by (simp add: j2)
    have ev: "process_json_stream loads decode [b1, b2] =
        map (\<lambda>t. text_response (clean_markdown_json t)) (filter (\<lambda>t. t \<noteq> []) [T1]) @ F1
        @ map (\<lambda>t. text_response (clean_markdown_json t)) (filter (\<lambda>t. t \<noteq> []) [drop (length T1) T2]) @ F2"
      by (simp add: process_json_stream_def k1 k2)
    show ?thesis
      unfolding ev
      using filter_deltas [OF F1 F2, of "\<lambda>t. text_response (clean_markdown_json t)" T1 "drop (length T1) T2"]
      by simp
  qed
  from sse json show ?thesis unfolding fr1_def by blast
qed

text \<open>
  The units with the texts \<^verbatim>\<open>Hel\<close> and \<^verbatim>\<open>Hello\<close> on the SSE path, the second with
  the finish reason \<^verbatim>\<open>stop\<close>.
\<close>

theorem cumulative_text_deltas_witness:
  "filter (\<lambda>e. content e \<noteq> None)
     (fst (process_sse_stream
        (map_of
           [(''{\"output\":{\"text\":\"Hel\"}}'', JObj [(''output'', JObj [(''text'', JStr ''Hel'')])]),
            (''{\"output\":{\"text\":\"Hello\",\"finish_reason\":\"stop\"}}'',
               JObj [(''output'', JObj [(''text'', JStr ''Hello''), (''finish_reason'', JStr ''stop'')])])])
        (\<lambda>b. b)
        [''data: {\"output\":{\"text\":\"Hel\"}}\<newline>\<newline>'',
         ''data: {\"output\":{\"text\":\"Hello\",\"finish_reason\":\"stop\"}}\<newline>\<newline>'']))
     = [text_response ''Hel'', text_response ''lo'']
   \<and> full_response
     (fst (process_sse_stream
        (map_of
           [(''{\"output\":{\"text\":\"Hel\"}}'', JObj [(''output'', JObj [(''text'', JStr ''Hel'')])]),
            (''{\"output\":{\"text\":\"Hello\",\"finish_reason\":\"stop\"}}'',
               JObj [(''output'', JObj [(''text'', JStr ''Hello''), (''finish_reason'', JStr ''stop'')])])])
        (\<lambda>b. b)
        [''data: {\"output\":{\"text\":\"Hel\"}}\<newline>\<newline>'',
         ''data: {\"output\":{\"text\":\"Hello\",\"finish_reason\":\"stop\"}}\<newline>\<newline>'']))
     = ''Hello''"
proof -
  let ?s1 = "''{\"output\":{\"text\":\"Hel\"}}''"
  let ?s2 = "''{\"output\":{\"text\":\"Hello\",\"finish_reason\":\"stop\"}}''"
  let ?o1 = "[(''text'', JStr ''Hel'')]"
  let ?o2 = "[(''text'', JStr ''Hello''), (''finish_reason'', JStr ''stop'')]"
  let ?loads = "map_of [(?s1, JObj [(''output'', JObj ?o1)]), (?s2, JObj [(''output'', JObj ?o2)])]"
  have ok: "\<exists>r. qwen_map_finish_reason
      (case map_of ?o1 ''finish_reason'' of Some x \<Rightarrow> x | None \<Rightarrow> JNull) = Inr r"
    by simp
  have "((\<exists>r. qwen_map_finish_reason
              (case map_of ?o1 ''finish_reason'' of Some x \<Rightarrow> x | None \<Rightarrow> JNull) = Inr r) \<longrightarrow>
          filter (\<lambda>e. content e \<noteq> None)
            (fst (process_sse_stream ?loads (\<lambda>b. b)
               [''data: '' @ ?s1 @ [CHR 0x0A, CHR 0x0A], ''data: '' @ ?s2 @ [CHR 0x0A, CHR 0x0A]]))
            = map text_response (filter (\<lambda>t. t \<noteq> []) [''Hel'', drop (length ''Hel'') ''Hello''])
          \<and> full_response
            (fst (process_sse_stream ?loads (\<lambda>b. b)
               [''data: '' @ ?s1 @ [CHR 0x0A, CHR 0x0A], ''data: '' @ ?s2 @ [CHR 0x0A, CHR 0x0A]]))
            = ''Hello'')
       \<and> filter (\<lambda>e. content e \<noteq> None) (process_json_stream ?loads (\<lambda>b. b) [?s1, ?s2])
            = map (\<lambda>t. text_response (clean_markdown_json t))
                (filter (\<lambda>t. t \<noteq> []) [''Hel'', drop (length ''Hel'') ''Hello''])"
    by (rule cumulative_text_deltas
          [where ?T1.0 = "''Hel''" and ?T2.0 = "''Hello''" and ?s1.0 = ?s1 and ?s2.0 = ?s2
             and ?m1.0 = "''\"output\":{\"text\":\"Hel\"}''"
             and ?m2.0 = "''\"output\":{\"text\":\"Hello\",\"finish_reason\":\"stop\"}''"
             and ?d1.0 = "[(''output'', JObj ?o1)]" and ?d2.0 = "[(''output'', JObj ?o2)]"
             and ?o1.0 = ?o1 and ?o2.0 = ?o2 and loads = ?loads and decode = "\<lambda>b. b"
             and ?c1.0 = "''data: '' @ ?s1 @ [CHR 0x0A, CHR 0x0A]"
             and ?c2.0 = "''data: '' @ ?s2 @ [CHR 0x0A, CHR 0x0A]"
             and ?b1.0 = ?s1 and ?b2.0 = ?s2])
      simp_all
  with ok show ?thesis by simp
qed

text \<open>
  The claim as it was stated fails on the JSON path: the units with the texts
  \<^verbatim>\<open>a \<close> and \<^verbatim>\<open>a b\<close>, each in a chunk of its own, give the fragments \<^verbatim>\<open>a\<close> and \<^verbatim>\<open>b\<close>,
  and put together they are not the text \<^verbatim>\<open>a b\<close>.
\<close>

theorem json_stream_deltas_counterexample:
  "full_response
     (process_json_stream
        (map_of [(''{\"output\":{\"text\":\"a \"}}'', JObj [(''output'', JObj [(''text'', JStr ''a '')])]),
                 (''{\"output\":{\"text\":\"a b\"}}'', JObj [(''output'', JObj [(''text'', JStr ''a b'')])])])
        (\<lambda>b. b)
        [''{\"output\":{\"text\":\"a \"}}'', ''{\"output\":{\"text\":\"a b\"}}''])
   = ''ab''"
  by code_simp

text \<open>
  Claim C2.  A unit whose text does not start with the accumulated text is to be taken
  as an incremental fragment, yielded and appended.  The code does neither: the
  \<^verbatim>\<open>if\<close> that computes the incremental text has no other branch.  The units are two
  deltas of Shape B with the contents \<^verbatim>\<open>Hel\<close> and \<^verbatim>\<open>lo\<close>: the second one yields
  nothing and leaves the accumulated text \<^verbatim>\<open>Hel\<close>, on both paths.
\<close>

theorem fresh_delta_dropped:
  "process_sse_stream
     (map_of [(''{\"choices\":[{\"delta\":{\"content\":\"Hel\"}}]}'',
                 JObj [(''choices'', JArr [JObj [(''delta'', JObj [(''content'', JStr ''Hel'')])]])]),
              (''{\"choices\":[{\"delta\":{\"content\":\"lo\"}}]}'',
                 JObj [(''choices'', JArr [JObj [(''delta'', JObj [(''content'', JStr ''lo'')])]])])])
     (\<lambda>b. b)
     [''data: {\"choices\":[{\"delta\":{\"content\":\"Hel\"}}]}\<newline>\<newline>'',
      ''data: {\"choices\":[{\"delta\":{\"content\":\"lo\"}}]}\<newline>\<newline>'']
   = ([text_response ''Hel''], None)
   \<and> sse_unit ''Hel'' (JObj [(''choices'', JArr [JObj [(''delta'', JObj [(''content'', JStr ''lo'')])]])])
       = ([], ''Hel'', None)
   \<and> json_unit ''Hel'' (JObj [(''choices'', JArr [JObj [(''delta'', JObj [(''content'', JStr ''lo'')])]])])
       = ([], ''Hel'', None)"
  by code_simp

subsection \<open>The chunk reassembler\<close>

text \<open>
  Claim C3.  When the span from the first opening brace to the last closing brace does
  not parse, the buffer is to be left as it is.  The code has cut the buffer before it
  parses: for the object \<^verbatim>\<open>{"output":{"text":"Hi"}}\<close> that arrives without its last
  brace, the span does not parse, the buffer is empty afterwards, and when the brace
  arrives nothing is yielded; the same object in one chunk yields its text.
\<close>

theorem unparsed_span_dropped:
  "json_chunk
     (map_of [(''{\"output\":{\"text\":\"Hi\"}}'', JObj [(''output'', JObj [(''text'', JStr ''Hi'')])])])
     (\<lambda>b. b) ([], []) ''{\"output\":{\"text\":\"Hi\"}''
   = ([], ([], []))
   \<and> process_json_stream
     (map_of [(''{\"output\":{\"text\":\"Hi\"}}'', JObj [(''output'', JObj [(''text'', JStr ''Hi'')])])])
     (\<lambda>b. b) [''{\"output\":{\"text\":\"Hi\"}'', ''}'']
   = []
   \<and> process_json_stream
     (map_of [(''{\"output\":{\"text\":\"Hi\"}}'', JObj [(''output'', JObj [(''text'', JStr ''Hi'')])])])
     (\<lambda>b. b) [''{\"output\":{\"text\":\"Hi\"}}'']
   = [text_response ''Hi'']"
  by code_simp

text \<open>
  Claim C7.  After the line \<^verbatim>\<open>data: [DONE]\<close> no response is to be yielded.  The
  \<^verbatim>\<open>break\<close> leaves the loop over the lines of the buffer only: a data line in the next
  chunk is parsed and its text is yielded.
\<close>

theorem events_after_done:
  "process_sse_stream
     (map_of [(''{\"output\":{\"text\":\"late\"}}'', JObj [(''output'', JObj [(''text'', JStr ''late'')])])])
     (\<lambda>b. b)
     [''data: [DONE]\<newline>\<newline>'', ''data: {\"output\":{\"text\":\"late\"}}\<newline>\<newline>'']
   = ([text_response ''late''], None)"
  by code_simp

subsection \<open>The SSE event framer\<close>

lemma connection_frames_from:
  "connection_frames dumps gen events =
     (map (\<lambda>(n, data, event_type).
             ''id: '' @ str_nat n @ [CHR 0x0A] @ ''event: '' @ event_type @ [CHR 0x0A]
               @ ''data: '' @ dumps data @ [CHR 0x0A, CHR 0x0A])
        (enumerate (event_id gen + 1) events),
      gen\<lparr>event_id := event_id gen + length events\<rparr>)"
proof (induction events arbitrary: gen)
  case Nil
  then show ?case by simp
next
  case (Cons ev events)
  obtain data event_type where ev: "ev = (data, event_type)" by (cases ev)
  show ?case
    unfolding ev
    by (simp add: generate_sse_event_def Let_def Cons.IH)
qed

text \<open>
  Claim C5, as amended.  The frames that one \<^verbatim>\<open>SSEGenerator\<close> produces for a sequence of
  \<open>N\<close> events carry the identifiers \<open>k + 1\<close>, ..., \<open>k + N\<close> in this order, where \<open>k\<close> is
  the counter of the generator before the first of them, and the counter is \<open>k + N\<close>
  afterwards; for a generator as created they are \<open>1\<close>, ..., \<open>N\<close>.  (\<^term>\<open>enumerate k xs\<close>
  pairs the elements of \<open>xs\<close> with \<open>k\<close>, \<open>k + 1\<close>, ...)  The counter belongs to the
  generator, of which the application has one for all connections.
\<close>

theorem frame_ids_consecutive:
  "fst (connection_frames dumps gen events) =
     map (\<lambda>(n, data, event_type).
             ''id: '' @ str_nat n @ [CHR 0x0A] @ ''event: '' @ event_type @ [CHR 0x0A]
               @ ''data: '' @ dumps data @ [CHR 0x0A, CHR 0x0A])
        (enumerate (event_id gen + 1) events)
   \<and> event_id (snd (connection_frames dumps gen events)) = event_id gen + length events
   \<and> map fst (enumerate (event_id gen + 1) events)
       = [event_id gen + 1 ..< event_id gen + 1 + length events]
   \<and> fst (connection_frames dumps new_sse_generator events) =
     map (\<lambda>(n, data, event_type).
             ''id: '' @ str_nat n @ [CHR 0x0A] @ ''event: '' @ event_type @ [CHR 0x0A]
               @ ''data: '' @ dumps data @ [CHR 0x0A, CHR 0x0A])
        (enumerate 1 events)"
  by (simp add: connection_frames_from new_sse_generator_def)

text \<open>Two events on a generator as created.\<close>

theorem frame_ids_consecutive_witness:
  "fst (connection_frames (\<lambda>d. d) new_sse_generator [(''{}'', ''message''), (''{}'', ''complete'')]) =
     [''id: 1\<newline>event: message\<newline>data: {}\<newline>\<newline>'',
      ''id: 2\<newline>event: complete\<newline>data: {}\<newline>\<newline>'']"
proof -
  have s: "str_nat (Suc 0) = ''1''" "str_nat (Suc (Suc 0)) = ''2''" by code_simp+
  show ?thesis
    using frame_ids_consecutive [of "\<lambda>d. d" new_sse_generator "[(''{}'', ''message''), (''{}'', ''complete'')]"]
    by (simp add: s new_sse_generator_def)
qed

text \<open>
  The claim as it was stated fails for the second of two connections that one process
  serves: its only frame carries the identifier 2.
\<close>

theorem second_connection_counterexample:
  "serve (\<lambda>d. d) new_sse_generator [[(''{}'', ''message'')], [(''{}'', ''message'')]] =
     [[''id: 1\<newline>event: message\<newline>data: {}\<newline>\<newline>''],
      [''id: 2\<newline>event: message\<newline>data: {}\<newline>\<newline>'']]"
  by code_simp

subsection \<open>The generation parameters\<close>

lemma map_of_optional_param:
  "map_of (optional_param config name key) k =
     (if k = key then
        (case config of
           None \<Rightarrow> None
         | Some attrs \<Rightarrow>
             (case attrs name of None \<Rightarrow> None | Some v \<Rightarrow> if v = JNull then None else Some v))
      else None)"
  by (simp add: optional_param_def split: option.splits)

text \<open>
  Claim C9, as amended.  In the parameters that either adapter builds, each optional key
  (\<^verbatim>\<open>top_p\<close>, \<^verbatim>\<open>top_k\<close> and \<^verbatim>\<open>repetition_penalty\<close> for Qwen; \<^verbatim>\<open>top_p\<close>,
  \<^verbatim>\<open>frequency_penalty\<close> and \<^verbatim>\<open>presence_penalty\<close> for OpenAI) is present exactly when
  the configuration has the attribute with a value other than \<^verbatim>\<open>None\<close>, and then with
  that value.  The keys \<^verbatim>\<open>temperature\<close> and \<^verbatim>\<open>max_tokens\<close> (and \<^verbatim>\<open>model\<close> for OpenAI)
  are always present, with the value of the attribute if the configuration has it and
  the default otherwise.  There is no other key, and no key occurs twice.
\<close>

theorem optional_parameters_only_when_set:
  "map_of (convert_to_qwen_parameters config) k =
     (if k = ''temperature'' then Some (py_getattr config ''temperature'' (JFloat (7 / 10)))
      else if k = ''max_tokens'' then Some (py_getattr config ''max_output_tokens'' (JInt 2048))
      else if k = ''top_p'' \<or> k = ''top_k'' \<or> k = ''repetition_penalty'' then
        (case config of
           None \<Rightarrow> None
         | Some attrs \<Rightarrow>
             (case attrs k of None \<Rightarrow> None | Some v \<Rightarrow> if v = JNull then None else Some v))
      else None)
   \<and> map_of (get_generation_parameters self config) k =
     (if k = ''model'' then Some (JStr (model_name self))
      else if k = ''temperature'' then Some (py_getattr config ''temperature'' (default_temperature self))
      else if k = ''max_tokens'' then Some (py_getattr config ''max_output_tokens'' (default_max_tokens self))
      else if k = ''top_p'' \<or> k = ''frequency_penalty'' \<or> k = ''presence_penalty'' then
        (case config of
           None \<Rightarrow> None
         | Some attrs \<Rightarrow>
             (case attrs k of None \<Rightarrow> None | Some v \<Rightarrow> if v = JNull then None else Some v))
      else None)
   \<and> distinct (map fst (convert_to_qwen_parameters config))
   \<and> distinct (map fst (get_generation_parameters self config))"
proof -
  have d: "map fst (optional_param config name key) = [] \<or> map fst (optional_param config name key) = [key]"
    for name key
    by (simp add: optional_param_def split: option.splits)
  have q: "map_of (convert_to_qwen_parameters config) k =
     (if k = ''temperature'' then Some (py_getattr config ''temperature'' (JFloat (7 / 10)))
      else if k = ''max_tokens'' then Some (py_getattr config ''max_output_tokens'' (JInt 2048))
      else if k = ''top_p'' \<or> k = ''top_k'' \<or> k = ''repetition_penalty'' then
        (case config of
           None \<Rightarrow> None
         | Some attrs \<Rightarrow>
             (case attrs k of None \<Rightarrow> None | Some v \<Rightarrow> if v = JNull then None else Some v))
      else None)"
    by (simp add: convert_to_qwen_parameters_def map_add_def map_of_optional_param
        split: option.splits)
  have o: "map_of (get_generation_parameters self config) k =
     (if k = ''model'' then Some (JStr (model_name self))
      else if k = ''temperature'' then Some (py_getattr config ''temperature'' (default_temperature self))
      else if k = ''max_tokens'' then Some (py_getattr config ''max_output_tokens'' (default_max_tokens self))
      else if k = ''top_p'' \<or> k = ''frequency_penalty'' \<or> k = ''presence_penalty'' then
        (case config of
           None \<Rightarrow> None
         | Some attrs \<Rightarrow>
             (case attrs k of None \<Rightarrow> None | Some v \<Rightarrow> if v = JNull then None else Some v))
      else None)"
    by (simp add: get_generation_parameters_def map_add_def map_of_optional_param
        split: option.splits)
  have dq: "distinct (map fst (convert_to_qwen_parameters config))"
    using d [of "''top_p''" "''top_p''"] d [of "''top_k''" "''top_k''"]
      d [of "''repetition_penalty''" "''repetition_penalty''"]
    by (auto simp: convert_to_qwen_parameters_def)
  have do: "distinct (map fst (get_generation_parameters self config))"
    using d [of "''top_p''" "''top_p''"] d [of "''frequency_penalty''" "''frequency_penalty''"]
      d [of "''presence_penalty''" "''presence_penalty''"]
    by (auto simp: get_generation_parameters_def)
  from q o dq do show ?thesis by blast
qed

text \<open>A configuration with a temperature, \<^verbatim>\<open>top_p\<close> set to \<^verbatim>\<open>None\<close> and \<^verbatim>\<open>top_k\<close> set to 5.\<close>

theorem optional_parameters_only_when_set_witness:
  "map_of (convert_to_qwen_parameters
      (Some (map_of [(''temperature'', JFloat (1 / 2)), (''top_p'', JNull), (''top_k'', JInt 5)]))) ''top_k''
     = Some (JInt 5)
   \<and> map_of (convert_to_qwen_parameters
      (Some (map_of [(''temperature'', JFloat (1 / 2)), (''top_p'', JNull), (''top_k'', JInt 5)]))) ''top_p''
     = None
   \<and> map_of (convert_to_qwen_parameters
      (Some (map_of [(''temperature'', JFloat (1 / 2)), (''top_p'', JNull), (''top_k'', JInt 5)]))) ''repetition_penalty''
     = None"
  using optional_parameters_only_when_set
    [of "Some (map_of [(''temperature'', JFloat (1 / 2)), (''top_p'', JNull), (''top_k'', JInt 5)])" "''top_k''"]
   optional_parameters_only_when_set
    [of "Some (map_of [(''temperature'', JFloat (1 / 2)), (''top_p'', JNull), (''top_k'', JInt 5)])" "''top_p''"]
   optional_parameters_only_when_set
    [of "Some (map_of [(''temperature'', JFloat (1 / 2)), (''top_p'', JNull), (''top_k'', JInt 5)])" "''repetition_penalty''"]
  by simp

text \<open>
  The claim as it was stated fails for the two keys that are always forwarded: without
  a configuration the parameters hold the defaults of \<^verbatim>\<open>temperature\<close> and
  \<^verbatim>\<open>max_tokens\<close>, and a temperature that is \<^verbatim>\<open>None\<close> in the configuration is forwarded
  as it is.
\<close>

theorem absent_config_counterexample:
  "convert_to_qwen_parameters None = [(''temperature'', JFloat (7 / 10)), (''max_tokens'', JInt 2048)]
   \<and> map_of (convert_to_qwen_parameters (Some (map_of [(''temperature'', JNull)]))) ''temperature''
       = Some JNull"
  by (simp add: convert_to_qwen_parameters_def py_getattr_def optional_param_def)

subsection \<open>The responses of a generation\<close>

lemma qwen_map_finish_reason_truthy:
  "truthy v \<Longrightarrow> qwen_map_finish_reason v = Inr r \<Longrightarrow> \<exists>x. r = Some x"
  by (cases v) (auto split: if_splits)

lemma sse_unit_yields:
  "\<exists>ts fs. fst (sse_unit acc data) = ts @ fs
     \<and> (ts = [] \<or> (\<exists>t. t \<noteq> [] \<and> ts = [text_response t]))
     \<and> (fs = [] \<or> (\<exists>x. fs = [final_response (Some x) None]))"
proof (cases "text_and_reason data")
  case (Inl e)
  then show ?thesis by (simp add: sse_unit_def)
next
  case (Inr p)
  obtain current_text finish_reason_str where p: "p = (current_text, finish_reason_str)"
    by (cases p)
  show ?thesis
  proof (cases "incremental acc current_text")
    case (Inl e)
    with Inr p show ?thesis by (simp add: sse_unit_def)
  next
    case (Inr q)
    obtain inc acc' where q: "q = (inc, acc')" by (cases q)
    define ts where "ts = (case inc of None \<Rightarrow> [] | Some t \<Rightarrow> if t \<noteq> [] then [text_response t] else [])"
    have ts: "ts = [] \<or> (\<exists>t. t \<noteq> [] \<and> ts = [text_response t])"
      by (auto simp: ts_def split: option.splits)
    show ?thesis
    proof (cases "truthy finish_reason_str")
      case False
      then have "fst (sse_unit acc data) = ts @ []"
        using \<open>text_and_reason data = Inr p\<close> p Inr q by (simp add: sse_unit_def ts_def)
      with ts show ?thesis by blast
    next
      case True
      show ?thesis
      proof (cases "qwen_map_finish_reason finish_reason_str")
        case (Inl e)
        then have "fst (sse_unit acc data) = ts @ []"
          using True \<open>text_and_reason data = Inr p\<close> p Inr q by (simp add: sse_unit_def ts_def)
        with ts show ?thesis by blast
      next
        case (Inr r)
        with True obtain x where x: "r = Some x"
          using qwen_map_finish_reason_truthy by blast
        have "fst (sse_unit acc data) = ts @ [final_response (Some x) None]"
          using True \<open>text_and_reason data = Inr p\<close> p \<open>incremental acc current_text = Inr q\<close> q Inr x
          by (simp add: sse_unit_def ts_def)
        with ts show ?thesis by blast
      qed
    qed
  qed
qed

lemma json_unit_yields:
  "\<exists>ts fs. fst (json_unit acc data) = ts @ fs
     \<and> (ts = [] \<or> (\<exists>t. ts = [text_response t]))
     \<and> (fs = [] \<or> (\<exists>x u. fs = [final_response (Some x) u]))"
proof (cases "text_and_reason data")
  case (Inl e)
  then show ?thesis by (simp add: json_unit_def)
next
  case (Inr p)
  note tr = Inr
  obtain current_text finish_reason_str where p: "p = (current_text, finish_reason_str)"
    by (cases p)
  show ?thesis
  proof (cases "usage_of data")
    case (Inl e)
    with tr p show ?thesis by (simp add: json_unit_def)
  next
    case (Inr usage_data)
    note us = Inr
    show ?thesis
    proof (cases "incremental acc current_text")
      case (Inl e)
      with tr p us show ?thesis by (simp add: json_unit_def)
    next
      case (Inr q)
      note inc = Inr
      obtain it acc' where q: "q = (it, acc')" by (cases q)
      define ts where "ts = (case it of None \<Rightarrow> []
          | Some t \<Rightarrow> if t \<noteq> [] then [text_response (clean_markdown_json t)] else [])"
      have ts: "ts = [] \<or> (\<exists>t. ts = [text_response t])"
        by (auto simp: ts_def split: option.splits)
      show ?thesis
      proof (cases "truthy finish_reason_str")
        case False
        then have "fst (json_unit acc data) = ts @ []"
          using tr p us inc q by (simp add: json_unit_def ts_def)
        with ts show ?thesis by blast
      next
        case True
        show ?thesis
        proof (cases "qwen_map_finish_reason finish_reason_str")
          case (Inl e)
          then have "fst (json_unit acc data) = ts @ []"
            using True tr p us inc q by (simp add: json_unit_def ts_def)
          with ts show ?thesis by blast
        next
          case (Inr r)
          note mp = Inr
          with True obtain x where x: "r = Some x"
            using qwen_map_finish_reason_truthy by blast
          show ?thesis
          proof (cases "usage_metadata_of usage_data")
            case (Inl e)
            then have "fst (json_unit acc data) = ts @ []"
              using True tr p us inc q mp by (simp add: json_unit_def ts_def)
            with ts show ?thesis by blast
          next
            case (Inr u)
            then have "fst (json_unit acc data) = ts @ [final_response (Some x) u]"
              using True tr p us inc q mp x by (simp add: json_unit_def ts_def)
            with ts show ?thesis by blast
          qed
        qed
      qed
    qed
  qed
qed

lemma finish_reason_text_response [simp]: "finish_reason (text_response t) = None"
  by (simp add: text_response_def)



lemma sse_unit_event:
  assumes "sse_unit acc data = (ys, acc', err)" and "e \<in> set ys"
  shows "(\<exists>t. t \<noteq> [] \<and> e = text_response t) \<or> (\<exists>x. e = final_response (Some x) None)"
proof -
  obtain ts fs where y: "ys = ts @ fs"
    and ts: "ts = [] \<or> (\<exists>t. t \<noteq> [] \<and> ts = [text_response t])"
    and fs: "fs = [] \<or> (\<exists>x. fs = [final_response (Some x) None])"
    using sse_unit_yields [of acc data] assms(1) by auto
  from assms(2) y have "e \<in> set ts \<or> e \<in> set fs" by simp
  with ts fs show ?thesis by auto
qed

lemma json_unit_event:
  assumes "json_unit acc data = (ys, acc', err)" and "e \<in> set ys"
  shows "(\<exists>t. e = text_response t) \<or> (\<exists>x u. e = final_response (Some x) u)"
proof -
  obtain ts fs where y: "ys = ts @ fs"
    and ts: "ts = [] \<or> (\<exists>t. ts = [text_response t])"
    and fs: "fs = [] \<or> (\<exists>x u. fs = [final_response (Some x) u])"
    using json_unit_yields [of acc data] assms(1) by auto
  from assms(2) y have "e \<in> set ts \<or> e \<in> set fs" by simp
  with ts fs show ?thesis by auto
qed

lemma sse_lines_event:
  "e \<in> set (fst (sse_lines loads buffer acc)) \<Longrightarrow>
     (\<exists>t. t \<noteq> [] \<and> e = text_response t) \<or> (\<exists>x. e = final_response (Some x) None)"
proof (induction loads buffer acc rule: sse_lines.induct)
  case (1 loads buffer acc)
  show ?case
    using "1.prems" "1.IH"
    apply (subst (asm) sse_lines.simps)
    apply (auto simp: Let_def split: if_splits option.splits prod.splits dest: sse_unit_event)
    done
qed

lemma sse_chunks_event:
  "e \<in> set (fst (sse_chunks loads decode state chunks)) \<Longrightarrow>
     (\<exists>t. t \<noteq> [] \<and> e = text_response t) \<or> (\<exists>x. e = final_response (Some x) None)"
proof (induction chunks arbitrary: state)
  case Nil
  then show ?case by simp
next
  case (Cons chunk chunks)
  obtain buffer acc where st: "state = (buffer, acc)" by (cases state)
  show ?case
  proof (cases "chunk = []")
    case True
    with Cons show ?thesis by simp
  next
    case False
    obtain ys state' err where l: "sse_lines loads (buffer @ decode chunk) acc = (ys, state', err)"
      by (cases "sse_lines loads (buffer @ decode chunk) acc") auto
    have ys: "e \<in> set ys \<Longrightarrow> ?thesis"
      using sse_lines_event [of e loads "buffer @ decode chunk" acc] l by simp
    show ?thesis
    proof (cases err)
      case (Some x)
      with Cons.prems False st l ys show ?thesis by simp
    next
      case None
      with Cons.prems False st l have "e \<in> set ys \<or> e \<in> set (fst (sse_chunks loads decode state' chunks))"
        by (auto split: prod.splits)
      with ys Cons.IH show ?thesis by blast
    qed
  qed
qed

lemma json_chunk_event:
  assumes "json_chunk loads decode state chunk = (ys, state')" and "e \<in> set ys"
  shows "(\<exists>t. e = text_response t) \<or> (\<exists>x u. e = final_response (Some x) u)"
  using assms
  by (auto simp: json_chunk_def Let_def split: prod.splits if_splits option.splits
      dest: json_unit_event)

lemma json_chunks_event:
  "e \<in> set (json_chunks loads decode state chunks) \<Longrightarrow>
     (\<exists>t. e = text_response t) \<or> (\<exists>x u. e = final_response (Some x) u)"
proof (induction chunks arbitrary: state)
  case Nil
  then show ?case by simp
next
  case (Cons chunk chunks)
  obtain ys state' where c: "json_chunk loads decode state chunk = (ys, state')"
    by (cases "json_chunk loads decode state chunk")
  with Cons.prems have "e \<in> set ys \<or> e \<in> set (json_chunks loads decode state' chunks)"
    by simp
  with c Cons.IH json_chunk_event show ?case by blast
qed

lemma parse_openai_chunk_event:
  "(\<exists>t. t \<noteq> [] \<and> parse_openai_chunk c = text_response t)
   \<or> (\<exists>x. parse_openai_chunk c = final_response (Some x) None)
   \<or> parse_openai_chunk c = final_response None None"
proof (cases c)
  case (Chunk choices)
  show ?thesis
  proof (cases choices)
    case Nil
    with Chunk show ?thesis by simp
  next
    case (Cons ch rest)
    obtain d r where ch: "ch = ChunkChoice d r" by (cases ch)
    have m: "r \<noteq> None \<Longrightarrow> r \<noteq> Some [] \<Longrightarrow> \<exists>x. openai_map_finish_reason r = Some x"
      by (cases r) (auto simp: openai_map_finish_reason_def)
    define tc where "tc = (case d of None \<Rightarrow> [] | Some s \<Rightarrow> s)"
    have eq: "parse_openai_chunk c =
        (if tc \<noteq> [] then text_response tc
         else if r \<noteq> None \<and> r \<noteq> Some [] then final_response (openai_map_finish_reason r) None
         else final_response None None)"
      using Chunk Cons ch by (simp add: Let_def tc_def)
    show ?thesis
    proof (cases "tc \<noteq> []")
      case True
      with eq have "parse_openai_chunk c = text_response tc" by simp
      with True show ?thesis by blast
    next
      case False
      show ?thesis
      proof (cases "r \<noteq> None \<and> r \<noteq> Some []")
        case True
        with m obtain x where "openai_map_finish_reason r = Some x" by blast
        with eq False True have "parse_openai_chunk c = final_response (Some x) None" by simp
        then show ?thesis by blast
      next
        case no: False
        with eq False have "parse_openai_chunk c = final_response None None" by auto
        then show ?thesis by blast
      qed
    qed
  qed
qed




text \<open>
  Claim C10, as amended.  Every response that a streaming processor yields carries at
  most one of a content and a finish reason.  On the SSE path it is a text response
  with a text that is not empty, or a final response with a finish reason and no
  content.  On the JSON path it is a text response or a final response with a finish
  reason.  On the streaming path of the OpenAI adapter it is a text response with a text
  that is not empty, a final response with a finish reason, or a response with neither
  content nor finish reason.
\<close>

theorem streaming_event_shapes:
  "(\<forall>e \<in> set (fst (process_sse_stream loads decode chunks)).
      (\<exists>t. t \<noteq> [] \<and> e = text_response t) \<or> (\<exists>x. e = final_response (Some x) None))
   \<and> (\<forall>e \<in> set (process_json_stream loads decode chunks).
      (\<exists>t. e = text_response t) \<or> (\<exists>x u. e = final_response (Some x) u))
   \<and> (\<forall>e \<in> set (openai_generate_stream stream_response).
      (\<exists>t. t \<noteq> [] \<and> e = text_response t) \<or> (\<exists>x. e = final_response (Some x) None)
      \<or> e = final_response None None)
   \<and> (\<forall>e \<in> set (fst (process_sse_stream loads decode chunks)
                  @ process_json_stream loads decode chunks
                  @ openai_generate_stream stream_response).
      content e = None \<or> finish_reason e = None)"
proof -
  have a: "\<forall>e \<in> set (fst (process_sse_stream loads decode chunks)).
      (\<exists>t. t \<noteq> [] \<and> e = text_response t) \<or> (\<exists>x. e = final_response (Some x) None)"
    using sse_chunks_event by (auto simp: process_sse_stream_def)
  have b: "\<forall>e \<in> set (process_json_stream loads decode chunks).
      (\<exists>t. e = text_response t) \<or> (\<exists>x u. e = final_response (Some x) u)"
    using json_chunks_event by (auto simp: process_json_stream_def)
  have c: "\<forall>e \<in> set (openai_generate_stream stream_response).
      (\<exists>t. t \<noteq> [] \<and> e = text_response t) \<or> (\<exists>x. e = final_response (Some x) None)
      \<or> e = final_response None None"
  proof
    fix e assume "e \<in> set (openai_generate_stream stream_response)"
    then have "(\<exists>c. e = parse_openai_chunk c) \<or> e = final_response (Some STOP) None"
      by (auto simp: openai_generate_stream_def)
    then show "(\<exists>t. t \<noteq> [] \<and> e = text_response t) \<or> (\<exists>x. e = final_response (Some x) None)
      \<or> e = final_response None None"
      using parse_openai_chunk_event by blast
  qed
  have t: "finish_reason (text_response t) = None" for t by simp
  have f: "content (final_response r u) = None" for r u by (simp add: final_response_def)
  have d: "\<forall>e \<in> set (fst (process_sse_stream loads decode chunks)
                  @ process_json_stream loads decode chunks
                  @ openai_generate_stream stream_response).
      content e = None \<or> finish_reason e = None"
  proof
    fix e assume "e \<in> set (fst (process_sse_stream loads decode chunks)
                  @ process_json_stream loads decode chunks
                  @ openai_generate_stream stream_response)"
    then have "(\<exists>t. e = text_response t) \<or> (\<exists>r u. e = final_response r u)"
      using a b c by (simp only: set_append Un_iff) blast
    then show "content e = None \<or> finish_reason e = None"
      using t f by auto
  qed
  from a b c d show ?thesis by blast
qed

text \<open>The SSE stream of one unit of Shape A with the text \<^verbatim>\<open>Hel\<close>.\<close>

theorem streaming_event_shapes_witness:
  "text_response ''Hel''
     \<in> set (fst (process_sse_stream
         (map_of [(''{\"output\":{\"text\":\"Hel\"}}'', JObj [(''output'', JObj [(''text'', JStr ''Hel'')])])])
         (\<lambda>b. b) [''data: {\"output\":{\"text\":\"Hel\"}}\<newline>\<newline>''])
       @ process_json_stream
         (map_of [(''{\"output\":{\"text\":\"Hel\"}}'', JObj [(''output'', JObj [(''text'', JStr ''Hel'')])])])
         (\<lambda>b. b) [''data: {\"output\":{\"text\":\"Hel\"}}\<newline>\<newline>'']
       @ openai_generate_stream [])
   \<and> (content (text_response ''Hel'') = None \<or> finish_reason (text_response ''Hel'') = None)"
proof -
  have v: "fst (process_sse_stream
         (map_of [(''{\"output\":{\"text\":\"Hel\"}}'', JObj [(''output'', JObj [(''text'', JStr ''Hel'')])])])
         (\<lambda>b. b) [''data: {\"output\":{\"text\":\"Hel\"}}\<newline>\<newline>'']) = [text_response ''Hel'']"
    by code_simp
  have m: "text_response ''Hel''
     \<in> set (fst (process_sse_stream
         (map_of [(''{\"output\":{\"text\":\"Hel\"}}'', JObj [(''output'', JObj [(''text'', JStr ''Hel'')])])])
         (\<lambda>b. b) [''data: {\"output\":{\"text\":\"Hel\"}}\<newline>\<newline>''])
       @ process_json_stream
         (map_of [(''{\"output\":{\"text\":\"Hel\"}}'', JObj [(''output'', JObj [(''text'', JStr ''Hel'')])])])
         (\<lambda>b. b) [''data: {\"output\":{\"text\":\"Hel\"}}\<newline>\<newline>'']
       @ openai_generate_stream [])"
    unfolding v by simp
  have "content (text_response ''Hel'') = None \<or> finish_reason (text_response ''Hel'') = None"
    by (rule bspec [OF conjunct2 [OF conjunct2 [OF conjunct2 [OF streaming_event_shapes]]] m])
  with m show ?thesis by blast
qed

text \<open>
  The claim as it was stated fails on the streaming path of the OpenAI adapter: for a
  chunk whose delta has an empty content and that has no finish reason, the response
  has neither a content nor a finish reason.
\<close>

theorem empty_event_counterexample:
  "openai_generate_stream [Chunk [ChunkChoice (Some []) None]]
     = [final_response None None, final_response (Some STOP) None]
   \<and> content (final_response None None) = None
   \<and> finish_reason (final_response None None) = None"
  by (simp add: openai_generate_stream_def final_response_def)

subsection \<open>The text sanitizer\<close>

lemma dropWhile_fixed: "xs = [] \<or> \<not> P (hd xs) \<Longrightarrow> dropWhile P xs = xs"
  by (cases xs) auto

lemma strip_idem: "strip (strip s) = strip s"
proof -
  define u where "u = dropWhile isspace s"
  define v where "v = dropWhile isspace (rev u)"
  have s: "strip s = rev v" by (simp add: strip_def u_def v_def)
  have vfix: "dropWhile isspace v = v" by (simp add: v_def)
  have "rev v = [] \<or> \<not> isspace (hd (rev v))"
  proof (cases "v = []")
    case True
    then show ?thesis by simp
  next
    case False
    have suf: "suffix v (rev u)" unfolding v_def by (rule suffix_dropWhile)
    then obtain p where p: "rev u = p @ v" by (auto simp: suffix_def)
    with False have "last (rev u) = last v" by simp
    moreover from p False have un: "u \<noteq> []" by auto
    ultimately have "last v = hd u" by (simp add: last_rev)
    moreover have "\<not> isspace (hd u)"
      using un unfolding u_def by (rule hd_dropWhile)
    ultimately show ?thesis using False by (simp add: hd_rev)
  qed
  then have "dropWhile isspace (rev v) = rev v" by (rule dropWhile_fixed)
  then have "strip (rev v) = rev v" by (simp add: strip_def vfix)
  with s show ?thesis by simp
qed

lemma sublist_strip: "sublist (strip s) s"
proof -
  have "sublist (dropWhile isspace (rev (dropWhile isspace s))) (rev (dropWhile isspace s))"
    by (rule sublist_dropWhile)
  then have "sublist (strip s) (dropWhile isspace s)"
    by (simp add: strip_def sublist_rev_left)
  moreover have "sublist (dropWhile isspace s) s" by (rule sublist_dropWhile)
  ultimately show ?thesis by (rule sublist_order.order_trans)
qed

lemma split_nl_not_Nil: "split_nl s \<noteq> []"
  by (induction s) (auto split: list.splits)

lemma join_nl_Cons_Cons: "join_nl ((c # l) # ls) = c # join_nl (l # ls)"
  by (cases ls) simp_all

lemma join_nl_Nil_Cons: "ls \<noteq> [] \<Longrightarrow> join_nl ([] # ls) = CHR 0x0A # join_nl ls"
  by (cases ls) simp_all

lemma join_split: "join_nl (split_nl s) = s"
proof (induction s)
  case Nil
  then show ?case by simp
next
  case (Cons c cs)
  show ?case
  proof (cases "c = CHR 0x0A")
    case True
    with Cons show ?thesis by (simp add: join_nl_Nil_Cons split_nl_not_Nil)
  next
    case False
    obtain l ls where l: "split_nl cs = l # ls"
      using split_nl_not_Nil [of cs] by (cases "split_nl cs") auto
    with False Cons show ?thesis by (simp add: join_nl_Cons_Cons)
  qed
qed

lemma prefix_hd_split_nl: "prefix (hd (split_nl s)) s"
  by (induction s) (auto split: list.splits)

lemma sublist_split_nl: "l \<in> set (split_nl s) \<Longrightarrow> sublist l s"
proof (induction s arbitrary: l)
  case Nil
  then show ?case by simp
next
  case (Cons c cs)
  show ?case
  proof (cases "c = CHR 0x0A")
    case True
    with Cons.prems have "l = [] \<or> l \<in> set (split_nl cs)" by simp
    with Cons.IH show ?thesis by (auto simp: sublist_Cons_right)
  next
    case False
    obtain l0 ls where l0: "split_nl cs = l0 # ls"
      using split_nl_not_Nil [of cs] by (cases "split_nl cs") auto
    with False Cons.prems have "l = c # l0 \<or> l \<in> set ls" by simp
    then show ?thesis
    proof
      assume "l = c # l0"
      moreover have "prefix l0 cs" using prefix_hd_split_nl [of cs] l0 by simp
      ultimately show ?thesis by (simp add: sublist_Cons_right)
    next
      assume "l \<in> set ls"
      with l0 have "l \<in> set (split_nl cs)" by simp
      with Cons.IH show ?thesis by (simp add: sublist_Cons_right)
    qed
  qed
qed

lemma take3_sublist: "take 3 r = f \<Longrightarrow> sublist f r"
  using sublist_take [of 3 r] by simp

lemma code_block_start_fence: "code_block_start l \<Longrightarrow> sublist ''```'' l"
proof -
  assume "code_block_start l"
  then have "take 3 (dropWhile isspace l) = ''```''"
    by (simp add: code_block_start_def Let_def)
  then have "sublist ''```'' (dropWhile isspace l)" by (rule take3_sublist)
  moreover have "sublist (dropWhile isspace l) l" by (rule sublist_dropWhile)
  ultimately show ?thesis by (rule sublist_order.order_trans)
qed

lemma code_block_end_start: "code_block_end l \<Longrightarrow> code_block_start l"
  by (simp add: code_block_end_def code_block_start_def Let_def)

lemma clean_lines_keep:
  "(\<And>l. l \<in> set ls \<Longrightarrow> \<not> code_block_start l) \<Longrightarrow> clean_lines b ls = ls"
proof (induction ls arbitrary: b)
  case Nil
  then show ?case by simp
next
  case (Cons l ls)
  have s: "\<not> code_block_start l" using Cons.prems by simp
  then have e: "\<not> code_block_end l" using code_block_end_start by blast
  have "clean_lines b ls = ls" using Cons by simp
  with s e show ?case using Cons by simp
qed

lemma first_fenced_none: "\<not> sublist ''```'' s \<Longrightarrow> first_fenced s = None"
proof (induction s)
  case Nil
  then show ?case by simp
next
  case (Cons c cs)
  have t: "take 3 (c # cs) \<noteq> ''```''"
    using Cons.prems take3_sublist [of "c # cs" "''```''"] by blast
  have "\<not> sublist ''```'' cs" using Cons.prems by (simp add: sublist_Cons_right)
  with Cons.IH have "first_fenced cs = None" by simp
  with t show ?case by auto
qed

text \<open>
  Claim C8, as amended.  The text sanitizer maps the fenced text
  \<^verbatim>\<open>```json\n{"a":1}\n```\<close> to \<^verbatim>\<open>{"a":1}\<close>, and for every text in which three backquotes
  in a row do not occur it gives the text without the whitespace at its two ends.
\<close>

theorem clean_markdown_json_no_fence:
  "clean_markdown_json ''```json\<newline>{\"a\":1}\<newline>```'' = ''{\"a\":1}''
   \<and> (\<not> sublist ''```'' t \<longrightarrow> clean_markdown_json t = strip t)"
proof -
  have ex: "clean_markdown_json ''```json\<newline>{\"a\":1}\<newline>```'' = ''{\"a\":1}''"
    by code_simp
  have gen: "clean_markdown_json t = strip t" if nf: "\<not> sublist ''```'' t"
  proof (cases "t = []")
    case True
    then show ?thesis by (simp add: clean_markdown_json_def strip_Nil)
  next
    case False
    have nf1: "\<not> sublist ''```'' (strip t)"
      using nf sublist_strip [of t] sublist_order.order_trans by blast
    have "\<not> code_block_start l" if "l \<in> set (split_nl (strip t))" for l
    proof
      assume "code_block_start l"
      then have "sublist ''```'' l" by (rule code_block_start_fence)
      moreover have "sublist l (strip t)" using that by (rule sublist_split_nl)
      ultimately have "sublist ''```'' (strip t)" by (rule sublist_order.order_trans)
      with nf1 show False by simp
    qed
    then have k: "clean_lines False (split_nl (strip t)) = split_nl (strip t)"
      by (rule clean_lines_keep)
    have ff: "first_fenced (strip t) = None" using nf1 by (rule first_fenced_none)
    show ?thesis
      using False by (simp add: clean_markdown_json_def Let_def k join_split strip_idem ff strip_Nil)
  qed
  from ex gen show ?thesis by blast
qed

text \<open>A text without a fence that ends with a space.\<close>

theorem clean_markdown_json_no_fence_witness:
  "\<not> sublist ''```'' ''{\"a\": 1} '' \<and> clean_markdown_json ''{\"a\": 1} '' = ''{\"a\": 1}''"
proof -
  have n: "\<not> sublist ''```'' ''{\"a\": 1} ''" by code_simp
  have s: "strip ''{\"a\": 1} '' = ''{\"a\": 1}''" by code_simp
  have "clean_markdown_json ''{\"a\": 1} '' = strip ''{\"a\": 1} ''"
    by (rule mp [OF conjunct2 [OF clean_markdown_json_no_fence] n])
  with n s show ?thesis by simp
qed

text \<open>
  The claim as it was stated fails for a text without a fence that starts with a space:
  the result is not the text as it was.
\<close>

theorem surrounding_whitespace_counterexample:
  "\<not> sublist ''```'' '' a'' \<and> clean_markdown_json '' a'' = ''a''"
  by code_simp

subsection \<open>Scenarios\<close>

text \<open>
  An SSE stream read in three chunks: the text \<^verbatim>\<open>Hel\<close>, then the text \<^verbatim>\<open>Hello\<close>, then
  the text \<^verbatim>\<open>Hello\<close> with the finish reason \<^verbatim>\<open>stop\<close> and the line \<^verbatim>\<open>data: [DONE]\<close>.
  The responses are the fragments \<^verbatim>\<open>Hel\<close> and \<^verbatim>\<open>lo\<close> and a final response with the
  reason \<^const>\<open>STOP\<close>.
\<close>

theorem sse_three_reads:
  "process_sse_stream
     (map_of
        [(''{\"output\":{\"text\":\"Hel\"}}'', JObj [(''output'', JObj [(''text'', JStr ''Hel'')])]),
         (''{\"output\":{\"text\":\"Hello\"}}'', JObj [(''output'', JObj [(''text'', JStr ''Hello'')])]),
         (''{\"output\":{\"text\":\"Hello\",\"finish_reason\":\"stop\"}}'',
            JObj [(''output'', JObj [(''text'', JStr ''Hello''), (''finish_reason'', JStr ''stop'')])])])
     (\<lambda>b. b)
     [''data: {\"output\":{\"text\":\"Hel\"}}\<newline>\<newline>'',
      ''data: {\"output\":{\"text\":\"Hello\"}}\<newline>\<newline>'',
      ''data: {\"output\":{\"text\":\"Hello\",\"finish_reason\":\"stop\"}}\<newline>\<newline>data: [DONE]\<newline>\<newline>'']
   = ([text_response ''Hel'', text_response ''lo'', final_response (Some STOP) None], None)"
  by code_simp

text \<open>
  A unit whose text and whose finish reason are both missing or empty yields no
  response and leaves the accumulated text as it is, on both paths.
\<close>

theorem empty_unit_yields_nothing:
  assumes "text_and_reason data = Inr (current_text, finish_reason_str)"
    and "\<not> truthy current_text" and "\<not> truthy finish_reason_str"
  shows "sse_unit acc data = ([], acc, None)
       \<and> fst (json_unit acc data) = [] \<and> fst (snd (json_unit acc data)) = acc"
proof -
  have i: "incremental acc current_text = Inr (None, acc)"
    using assms(2) by (simp add: incremental_def)
  have s: "sse_unit acc data = ([], acc, None)"
    using assms by (simp add: sse_unit_def i)
  have j: "fst (json_unit acc data) = [] \<and> fst (snd (json_unit acc data)) = acc"
    using assms by (cases "usage_of data") (simp_all add: json_unit_def i)
  from s j show ?thesis by simp
qed

text \<open>A unit that holds usage counts only.\<close>

theorem empty_unit_yields_nothing_witness:
  "sse_unit ''Hel'' (JObj [(''usage'', JObj [(''total_tokens'', JInt 7)])]) = ([], ''Hel'', None)
   \<and> fst (json_unit ''Hel'' (JObj [(''usage'', JObj [(''total_tokens'', JInt 7)])])) = []"
proof -
  have t: "text_and_reason (JObj [(''usage'', JObj [(''total_tokens'', JInt 7)])]) = Inr (JStr [], JNull)"
    by code_simp
  have a: "\<not> truthy (JStr [])" and b: "\<not> truthy JNull" by simp_all
  show ?thesis
    using empty_unit_yields_nothing [OF t a b, of "''Hel''"] by simp
qed

text \<open>
  Without streaming, a response of Shape B with the text \<^verbatim>\<open>Hi there\<close> gives one
  response that carries both the text and the reason \<^const>\<open>STOP\<close>, in either adapter.
\<close>

theorem non_streaming_shape_b:
  "qwen_generate_response
     (JObj [(''choices'',
        JArr [JObj [(''message'', JObj [(''content'', JStr ''Hi there'')]),
                    (''finish_reason'', JStr ''stop'')]])])
   = ([\<lparr>content = Some (Content [Part (Some ''Hi there'')] ''assistant''),
        finish_reason = Some STOP,
        usage_metadata = Some (UsageMetadata (JInt 0) (JInt 0))\<rparr>], None)
   \<and> openai_generate_response
        (Completion [Choice (Some (Message (Some ''Hi there''))) (Some ''stop'')] None)
   = [\<lparr>content = Some (Content [Part (Some ''Hi there'')] ''assistant''),
        finish_reason = Some STOP, usage_metadata = None\<rparr>]"
  by code_simp

text \<open>
  A finish reason that is a number ends the SSE generator: the first of two units has
  the text \<^verbatim>\<open>Hel\<close> and the finish reason 5, its fragment is yielded, the mapper raises,
  and the second unit is never read.
\<close>

theorem non_string_finish_reason_raises:
  "process_sse_stream
     (map_of
        [(''{\"output\":{\"text\":\"Hel\",\"finish_reason\":5}}'',
            JObj [(''output'', JObj [(''text'', JStr ''Hel''), (''finish_reason'', JInt 5)])]),
         (''{\"output\":{\"text\":\"Hello\"}}'', JObj [(''output'', JObj [(''text'', JStr ''Hello'')])])])
     (\<lambda>b. b)
     [''data: {\"output\":{\"text\":\"Hel\",\"finish_reason\":5}}\<newline>\<newline>'',
      ''data: {\"output\":{\"text\":\"Hello\"}}\<newline>\<newline>'']
   = ([text_response ''Hel''], Some AttributeError)"
  by code_simp

end
